theory Spec2Isabelle
  imports Main
begin

section \<open>Python values\<close>

text \<open>
  The session of \<^verbatim>\<open>app/api/server.py\<close> is a dictionary whose \<^verbatim>\<open>slots\<close> entry is a
  \<^verbatim>\<open>Dict[str, Any]\<close>: the values are whatever \<^verbatim>\<open>json.loads\<close> decoded from the
  completion, the strings the extractors found, or the \<^verbatim>\<open>None\<close> of a fresh session.
  They are modelled as the JSON values without floating-point numbers. A dictionary is an
  association list in insertion order, as Python keeps it. Strings are lists of
  \<^typ>\<open>char\<close>; the character classes and the case mappings below are the ASCII ones.
\<close>

datatype pyval =
    PNone
  | PBool bool
  | PInt int
  | PStr string
  | PList "pyval list"
  | PDict "(string \<times> pyval) list"

type_synonym pydict = "(string \<times> pyval) list"

text \<open>Truth value testing: \<^verbatim>\<open>None\<close>, \<^verbatim>\<open>False\<close>, zero and empty containers are false.\<close>

fun truthy :: "pyval \<Rightarrow> bool" where
  "truthy PNone = False"
| "truthy (PBool b) = b"
| "truthy (PInt n) = (n \<noteq> 0)"
| "truthy (PStr s) = (s \<noteq> [])"
| "truthy (PList xs) = (xs \<noteq> [])"
| "truthy (PDict kvs) = (kvs \<noteq> [])"

text \<open>\<^verbatim>\<open>d.get(k)\<close>: the value, or \<^verbatim>\<open>None\<close> for a missing key.\<close>

definition dget :: "pydict \<Rightarrow> string \<Rightarrow> pyval" where
  "dget d k = (case map_of d k of None \<Rightarrow> PNone | Some v \<Rightarrow> v)"

text \<open>\<^verbatim>\<open>d[k] = v\<close>: an existing key keeps its place, a new key goes last.\<close>

fun dset :: "pydict \<Rightarrow> string \<Rightarrow> pyval \<Rightarrow> pydict" where
  "dset [] k v = [(k, v)]"
| "dset ((k', v') # d) k v = (if k' = k then (k, v) # d else (k', v') # dset d k v)"

text \<open>\<^verbatim>\<open>a or b\<close> on values.\<close>

definition py_or :: "pyval \<Rightarrow> pyval \<Rightarrow> pyval" where
  "py_or a b = (if truthy a then a else b)"

text \<open>\<^verbatim>\<open>isinstance(v, str)\<close>.\<close>

fun is_str :: "pyval \<Rightarrow> bool" where
  "is_str (PStr s) = True"
| "is_str v = False"

text \<open>The exceptions the modelled code can raise.\<close>

datatype error =
    AttributeError string
  | TypeError string
  | KeyError string
  | ValidationError
  | HTTPException nat string
  | CollaboratorError string

section \<open>Strings\<close>

definition ord :: "char \<Rightarrow> nat" where
  "ord c = of_char c"

definition is_upper :: "char \<Rightarrow> bool" where
  "is_upper c = (65 \<le> ord c \<and> ord c \<le> 90)"

definition is_lower :: "char \<Rightarrow> bool" where
  "is_lower c = (97 \<le> ord c \<and> ord c \<le> 122)"

definition is_digit :: "char \<Rightarrow> bool" where
  "is_digit c = (48 \<le> ord c \<and> ord c \<le> 57)"

text \<open>\<^verbatim>\<open>[a-zA-Z]\<close>, the class \<^verbatim>\<open>\w\<close> and the class \<^verbatim>\<open>\s\<close> of \<^verbatim>\<open>re\<close>.\<close>

definition is_alpha :: "char \<Rightarrow> bool" where
  "is_alpha c = (is_upper c \<or> is_lower c)"

definition is_word :: "char \<Rightarrow> bool" where
  "is_word c = (is_alpha c \<or> is_digit c \<or> c = CHR ''_'')"

definition is_space :: "char \<Rightarrow> bool" where
  "is_space c = ((9 \<le> ord c \<and> ord c \<le> 13) \<or> (28 \<le> ord c \<and> ord c \<le> 32))"

definition lower_char :: "char \<Rightarrow> char" where
  "lower_char c = (if is_upper c then char_of (ord c + 32) else c)"

definition upper_char :: "char \<Rightarrow> char" where
  "upper_char c = (if is_lower c then char_of (ord c - 32) else c)"

text \<open>\<^verbatim>\<open>s.lower()\<close>, \<^verbatim>\<open>s.upper()\<close>, \<^verbatim>\<open>s.strip()\<close>, \<^verbatim>\<open>s[i:j]\<close>, \<^verbatim>\<open>w in s\<close> and
  \<^verbatim>\<open>sep.join(xs)\<close> on lists of strings.\<close>

definition lower :: "string \<Rightarrow> string" where
  "lower s = map lower_char s"

definition upper :: "string \<Rightarrow> string" where
  "upper s = map upper_char s"

definition strip :: "string \<Rightarrow> string" where
  "strip s = rev (dropWhile is_space (rev (dropWhile is_space s)))"

definition slice :: "string \<Rightarrow> nat \<Rightarrow> nat \<Rightarrow> string" where
  "slice s i j = take (j - i) (drop i s)"

definition contains :: "string \<Rightarrow> string \<Rightarrow> bool" where
  "contains w s = list_ex (\<lambda>i. take (length w) (drop i s) = w) [0..<Suc (length s)]"

definition QUOTE :: string where
  "QUOTE = [CHR 0x27]"

fun join :: "string \<Rightarrow> string list \<Rightarrow> string" where
  "join sep [] = []"
| "join sep [x] = x"
| "join sep (x # y # xs) = x @ sep @ join sep (y # xs)"

section \<open>Regular expressions\<close>

text \<open>
  The patterns of the source use literals, character classes, \<^verbatim>\<open>\b\<close>, alternation,
  \<^verbatim>\<open>?\<close> on one character, \<^verbatim>\<open>+\<close> and \<^verbatim>\<open>*\<close> on one character class, and at most one
  group whose text is read. A pattern is a value of \<open>rx\<close>, and \<open>rx_ends r s i\<close> lists,
  in the order in which the backtracking matcher of \<^verbatim>\<open>re\<close> tries them, the positions
  at which a match of \<open>r\<close> starting at position \<open>i\<close> of \<open>s\<close> can end, each with the span
  of the group when the group took part.
\<close>

datatype rx =
    Sym "char \<Rightarrow> bool"
  | Bnd
  | Eps
  | Seq rx rx
  | Alt rx rx
  | Rep nat "char \<Rightarrow> bool"
  | Grp rx

type_synonym span = "nat \<times> nat"

definition word_at :: "string \<Rightarrow> nat \<Rightarrow> bool" where
  "word_at s i = (i < length s \<and> is_word (s ! i))"

definition boundary :: "string \<Rightarrow> nat \<Rightarrow> bool" where
  "boundary s i = ((0 < i \<and> word_at s (i - 1)) \<noteq> word_at s i)"

fun keep_group :: "span option \<Rightarrow> nat \<times> span option \<Rightarrow> nat \<times> span option" where
  "keep_group g (k, h) = (k, case h of None \<Rightarrow> g | Some x \<Rightarrow> Some x)"

fun then_ends :: "(nat \<Rightarrow> (nat \<times> span option) list) \<Rightarrow> (nat \<times> span option) list
                  \<Rightarrow> (nat \<times> span option) list" where
  "then_ends f [] = []"
| "then_ends f ((j, g) # xs) = map (keep_group g) (f j) @ then_ends f xs"

primrec rx_ends :: "rx \<Rightarrow> string \<Rightarrow> nat \<Rightarrow> (nat \<times> span option) list" where
  "rx_ends (Sym P) s i = (if i < length s \<and> P (s ! i) then [(Suc i, None)] else [])"
| "rx_ends Bnd s i = (if boundary s i then [(i, None)] else [])"
| "rx_ends Eps s i = [(i, None)]"
| "rx_ends (Seq a b) s i = then_ends (rx_ends b s) (rx_ends a s i)"
| "rx_ends (Alt a b) s i = rx_ends a s i @ rx_ends b s i"
| "rx_ends (Rep n P) s i =
     map (\<lambda>k. (i + k, None)) (rev [n..<Suc (length (takeWhile P (drop i s)))])"
| "rx_ends (Grp a) s i = map (\<lambda>(j, g). (j, Some (i, j))) (rx_ends a s i)"

text \<open>The leftmost start from position \<open>i\<close> on with a match, and the first match there.\<close>

function rx_search_from :: "rx \<Rightarrow> string \<Rightarrow> nat \<Rightarrow> (nat \<times> nat \<times> span option) option" where
  "rx_search_from r s i =
     (if length s < i then None
      else (case rx_ends r s i of
              [] \<Rightarrow> rx_search_from r s (Suc i)
            | (j, g) # rest \<Rightarrow> Some (i, j, g)))"
  by pat_completeness auto
termination
  by (relation "measure (\<lambda>(r, s, i). Suc (length s) - i)") auto

text \<open>\<^verbatim>\<open>r.search(s)\<close>.\<close>

definition rx_search :: "rx \<Rightarrow> string \<Rightarrow> (nat \<times> nat \<times> span option) option" where
  "rx_search r s = rx_search_from r s 0"

text \<open>The successive non-overlapping matches from position \<open>i\<close> on, left to right.\<close>

function rx_finditer :: "rx \<Rightarrow> string \<Rightarrow> nat \<Rightarrow> (nat \<times> nat \<times> span option) list" where
  "rx_finditer r s i =
     (if length s < i then []
      else (case rx_ends r s i of
              [] \<Rightarrow> rx_finditer r s (Suc i)
            | (j, g) # rest \<Rightarrow> (i, j, g) # rx_finditer r s (if i < j then j else Suc i)))"
  by pat_completeness auto
termination
  by (relation "measure (\<lambda>(r, s, i). Suc (length s) - i)") auto

text \<open>\<^verbatim>\<open>r.findall(s)\<close>: the text of the group when the pattern has one, else of the match.\<close>

definition rx_findall :: "rx \<Rightarrow> string \<Rightarrow> string list" where
  "rx_findall r s =
     map (\<lambda>(i, j, g). case g of None \<Rightarrow> slice s i j | Some (a, b) \<Rightarrow> slice s a b)
         (rx_finditer r s 0)"

text \<open>Pattern builders: a literal, a literal under \<^verbatim>\<open>re.I\<close>, \<^verbatim>\<open>x?\<close>, a sequence and an
  alternation of several patterns.\<close>

fun lit :: "string \<Rightarrow> rx" where
  "lit [] = Eps"
| "lit (c # cs) = Seq (Sym (\<lambda>x. x = c)) (lit cs)"

fun lit_ci :: "string \<Rightarrow> rx" where
  "lit_ci [] = Eps"
| "lit_ci (c # cs) = Seq (Sym (\<lambda>x. lower_char x = lower_char c)) (lit_ci cs)"

definition opt :: "rx \<Rightarrow> rx" where
  "opt r = Alt r Eps"

fun seqs :: "rx list \<Rightarrow> rx" where
  "seqs [] = Eps"
| "seqs [r] = r"
| "seqs (r # rs) = Seq r (seqs rs)"

fun alts :: "rx list \<Rightarrow> rx" where
  "alts [] = Sym (\<lambda>x. False)"
| "alts [r] = r"
| "alts (r # rs) = Alt r (alts rs)"

section \<open>Configuration and patterns\<close>

text \<open>
  What the code takes from outside the repository is a parameter of the model: the
  settings read from the process environment, \<^verbatim>\<open>dateutil\<close>'s parser, \<^verbatim>\<open>json.loads\<close>,
  \<^verbatim>\<open>str()\<close> on a value that is not a string, pydantic's \<^verbatim>\<open>EmailStr\<close> validator, the
  completion for the turn's prompt, and the answers of the Google APIs.
\<close>

text \<open>The result of \<^verbatim>\<open>dateutil.parser.parse\<close>: its \<^verbatim>\<open>isoformat(timespec="seconds")\<close> and
  the instant that the aware datetime of \<^verbatim>\<open>_parse_dt\<close> denotes (the default zone applied
  to a naive result), which is what \<^verbatim>\<open>>=\<close> compares.\<close>

record parsed_dt =
  isoformat :: string
  instant :: int

text \<open>An API request returns its response, raises \<^verbatim>\<open>HttpError\<close>, or raises something else
  (credentials, transport).\<close>

datatype api_outcome = Response pydict | HttpError string | OtherError string

record env =
  default_timezone :: string
  gmail_from :: string
  dtparse :: "string \<Rightarrow> parsed_dt option"
  json_loads :: "string \<Rightarrow> pyval option"
  str_other :: "pyval \<Rightarrow> string"
  email_str :: "string \<Rightarrow> string option"
  llm_complete :: "error + string"
  events_insert :: "pydict \<Rightarrow> api_outcome"
  freebusy_query :: "pydict \<Rightarrow> api_outcome"
  messages_send :: "string \<Rightarrow> api_outcome"

text \<open>\<^verbatim>\<open>DEFAULT_TZ = getattr(settings, "default_timezone", "America/Los_Angeles")\<close>: the
  attribute always exists, so the fallback of \<^verbatim>\<open>getattr\<close> is never used.\<close>

definition DEFAULT_TZ :: "env \<Rightarrow> string" where
  "DEFAULT_TZ e = default_timezone e"

text \<open>\<^verbatim>\<open>str(v)\<close>, as \<^verbatim>\<open>format\<close> and f-strings apply it.\<close>

definition py_str :: "env \<Rightarrow> pyval \<Rightarrow> string" where
  "py_str e v = (case v of PStr s \<Rightarrow> s | _ \<Rightarrow> str_other e v)"

text \<open>\<^verbatim>\<open>YES_RE\<close>, \<^verbatim>\<open>NO_RE\<close> and \<^verbatim>\<open>NO_EMAIL_RE\<close>, compiled with \<^verbatim>\<open>re.I\<close>.\<close>

definition YES_RE :: rx where
  "YES_RE = seqs [Bnd,
     Grp (alts (map lit_ci [''yes'', ''yep'', ''yeah'', ''sure'', ''confirm'', ''go ahead'',
                            ''proceed'', ''looks good'', ''create it'', ''do it''])),
     Bnd]"

definition dont :: rx where
  "dont = seqs [lit_ci ''don'', opt (Sym (\<lambda>x. x = CHR 0x27)), lit_ci ''t'']"

definition NO_RE :: rx where
  "NO_RE = seqs [Bnd,
     Grp (alts [lit_ci ''no'', lit_ci ''nah'', lit_ci ''stop'', lit_ci ''cancel'', dont,
                lit_ci ''hold'', lit_ci ''wait'']),
     Bnd]"

definition NO_EMAIL_RE :: rx where
  "NO_EMAIL_RE = seqs [Bnd,
     Grp (alts [dont, lit_ci ''do not'', lit_ci ''no'', lit_ci ''skip'']),
     Rep 1 is_space, lit_ci ''email'', Bnd]"

text \<open>\<^verbatim>\<open>EMAIL_RE = [\w\.-]+@[\w\.-]+\.\w+\<close> and \<^verbatim>\<open>URL_RE = https?://\S+\<close>.\<close>

definition email_char :: "char \<Rightarrow> bool" where
  "email_char c = (is_word c \<or> c = CHR ''.'' \<or> c = CHR ''-'')"

definition EMAIL_RE :: rx where
  "EMAIL_RE = seqs [Rep 1 email_char, Sym (\<lambda>x. x = CHR ''@''), Rep 1 email_char,
                    Sym (\<lambda>x. x = CHR ''.''), Rep 1 is_word]"

definition URL_RE :: rx where
  "URL_RE = seqs [lit ''http'', opt (Sym (\<lambda>x. x = CHR ''s'')), lit ''://'',
                  Rep 1 (\<lambda>x. \<not> is_space x)]"

definition REQUIRED :: "string list" where
  "REQUIRED = [''title'', ''start_iso'', ''end_iso'', ''timezone'']"

definition TZ_WORDS :: "(string \<times> string) list" where
  "TZ_WORDS = [(''pacific'', ''America/Los_Angeles''), (''mountain'', ''America/Denver''),
               (''central'', ''America/Chicago''), (''eastern'', ''America/New_York'')]"

definition TZ_ABBR :: "(string \<times> string) list" where
  "TZ_ABBR =
     [(''PT'', ''America/Los_Angeles''), (''PST'', ''America/Los_Angeles''),
      (''PDT'', ''America/Los_Angeles''),
      (''MT'', ''America/Denver''), (''MST'', ''America/Denver''), (''MDT'', ''America/Denver''),
      (''CT'', ''America/Chicago''), (''CST'', ''America/Chicago''), (''CDT'', ''America/Chicago''),
      (''ET'', ''America/New_York''), (''EST'', ''America/New_York''),
      (''EDT'', ''America/New_York'')]"

text \<open>The abbreviation pattern of \<^verbatim>\<open>_detect_tz_tokens\<close>, with \<^verbatim>\<open>flags=re.I\<close>, the
  pattern of \<^verbatim>\<open>_cheap_title\<close> (no flag), and the two patterns of
  \<^verbatim>\<open>wants_check_availability\<close>, whose groups are never read.\<close>

definition TZ_TOKENS :: "string list" where
  "TZ_TOKENS = [''PDT'', ''PST'', ''PT'', ''MDT'', ''MST'', ''MT'',
                ''CDT'', ''CST'', ''CT'', ''EDT'', ''EST'', ''ET'']"

definition TZ_TOKEN_RE :: rx where
  "TZ_TOKEN_RE = seqs [Bnd, Grp (alts (map lit_ci TZ_TOKENS)), Bnd]"

definition TITLE_RE :: rx where
  "TITLE_RE = seqs [Bnd, lit ''with'', Rep 1 is_space,
                    Grp (Seq (Sym is_upper) (Rep 1 is_alpha)), Bnd]"

definition CHECK_RE :: rx where
  "CHECK_RE = seqs [Bnd, alts (map lit [''check'', ''verify'', ''see'']), Bnd,
                    Rep 0 (\<lambda>x. x \<noteq> CHR 0x0A),
                    Bnd, alts (map lit [''avail'', ''availability'', ''free'', ''busy'']), Bnd]"

definition AM_I_RE :: rx where
  "AM_I_RE = seqs [Bnd, lit ''am i '', alts (map lit [''free'', ''busy'']), Bnd]"

section \<open>Basic helpers\<close>

definition is_affirmative :: "string \<Rightarrow> bool" where
  "is_affirmative t = (rx_search YES_RE t \<noteq> None)"

definition is_negative :: "string \<Rightarrow> bool" where
  "is_negative t = (rx_search NO_RE t \<noteq> None)"

definition wants_no_email :: "string \<Rightarrow> bool" where
  "wants_no_email t = (rx_search NO_EMAIL_RE (lower t) \<noteq> None)"

definition wants_check_availability :: "string \<Rightarrow> bool" where
  "wants_check_availability t =
     (rx_search CHECK_RE (lower t) \<noteq> None \<or> rx_search AM_I_RE (lower t) \<noteq> None)"

text \<open>\<^verbatim>\<open>_parse_dt\<close>: \<^verbatim>\<open>None\<close> when the parser raises.\<close>

definition parse_dt :: "env \<Rightarrow> string \<Rightarrow> int option" where
  "parse_dt e s = map_option instant (dtparse e s)"

text \<open>\<^verbatim>\<open>_normalize_times\<close>, on the slots it mutates.\<close>

definition normalize_one :: "env \<Rightarrow> string \<Rightarrow> pydict \<Rightarrow> pydict" where
  "normalize_one e k s =
     (case dget s k of
        PStr v \<Rightarrow> (if v \<noteq> [] then (case dtparse e v of
                                        Some p \<Rightarrow> dset s k (PStr (isoformat p))
                                      | None \<Rightarrow> s)
                   else s)
      | _ \<Rightarrow> s)"

definition normalize_times :: "env \<Rightarrow> pydict \<Rightarrow> pydict" where
  "normalize_times e s =
     (let s1 = normalize_one e ''start_iso'' s;
          s2 = normalize_one e ''end_iso'' s1
      in if \<not> truthy (dget s2 ''timezone'') then dset s2 ''timezone'' (PStr (DEFAULT_TZ e))
         else s2)"

text \<open>\<^verbatim>\<open>_missing\<close>.\<close>

definition ORDER_LABEL :: string where
  "ORDER_LABEL = ''end_iso (must be after start_iso)''"

definition missing :: "env \<Rightarrow> pydict \<Rightarrow> string list" where
  "missing e s =
     (let miss = filter (\<lambda>k. \<not> truthy (dget s k)) REQUIRED
      in case (dget s ''start_iso'', dget s ''end_iso'') of
           (PStr si, PStr ei) \<Rightarrow>
             (if si \<noteq> [] \<and> ei \<noteq> [] then
                (case (parse_dt e si, parse_dt e ei) of
                   (Some sdt, Some edt) \<Rightarrow> (if sdt \<ge> edt then miss @ [ORDER_LABEL] else miss)
                 | _ \<Rightarrow> miss)
              else miss)
         | _ \<Rightarrow> miss)"

text \<open>\<^verbatim>\<open>_detect_tz_tokens\<close>.\<close>

definition detect_tz_tokens :: "string \<Rightarrow> string option" where
  "detect_tz_tokens t =
     (case List.find (\<lambda>(w, zone). contains w (lower t)) TZ_WORDS of
        Some (w, zone) \<Rightarrow> Some zone
      | None \<Rightarrow> (let m = rx_findall TZ_TOKEN_RE t
                 in if m \<noteq> [] then map_of TZ_ABBR (upper (last m)) else None))"

text \<open>\<^verbatim>\<open>_cheap_title\<close>.\<close>

definition cheap_title :: "string \<Rightarrow> string" where
  "cheap_title t =
     (case rx_search TITLE_RE t of
        Some (i, j, Some (a, b)) \<Rightarrow> ''Meeting with '' @ slice t a b
      | _ \<Rightarrow> ''Meeting'')"

section \<open>The session\<close>

text \<open>
  \<^verbatim>\<open>AgentState\<close>. Every session is made by \<^verbatim>\<open>_new_session\<close>, so \<^verbatim>\<open>slots\<close>,
  \<^verbatim>\<open>history\<close>, \<^verbatim>\<open>reply\<close>, \<^verbatim>\<open>awaiting_confirm\<close> and \<^verbatim>\<open>confirm_summary\<close> are always
  present; \<^verbatim>\<open>busy\<close>, \<^verbatim>\<open>created_event\<close> and \<^verbatim>\<open>email_result\<close> are absent until a tool
  returns them; an absent \<^verbatim>\<open>new_user_message\<close> is read as the empty string everywhere.
  A reply or a summary taken from the completion's arguments can be any value.
\<close>

record agent_state =
  slots :: pydict
  history :: "(string \<times> pyval) list"
  busy :: "pyval option"
  created_event :: "pyval option"
  email_result :: "pyval option"
  reply :: pyval
  new_user_message :: string
  awaiting_confirm :: bool
  confirm_summary :: pyval

text \<open>The dictionary a tool or the policy step returns, and \<^verbatim>\<open>state.update(updates)\<close>.\<close>

datatype upd =
    Reply pyval
  | Busy pyval
  | CreatedEvent pyval
  | EmailResult pyval
  | AwaitingConfirm bool
  | ConfirmSummary pyval

fun apply_upd :: "agent_state \<Rightarrow> upd \<Rightarrow> agent_state" where
  "apply_upd st (Reply r) = st\<lparr>reply := r\<rparr>"
| "apply_upd st (Busy b) = st\<lparr>busy := Some b\<rparr>"
| "apply_upd st (CreatedEvent ev) = st\<lparr>created_event := Some ev\<rparr>"
| "apply_upd st (EmailResult r) = st\<lparr>email_result := Some r\<rparr>"
| "apply_upd st (AwaitingConfirm b) = st\<lparr>awaiting_confirm := b\<rparr>"
| "apply_upd st (ConfirmSummary c) = st\<lparr>confirm_summary := c\<rparr>"

definition state_update :: "agent_state \<Rightarrow> upd list \<Rightarrow> agent_state" where
  "state_update st us = foldl apply_upd st us"

text \<open>\<^verbatim>\<open>state.get(k)\<close> tested for truth, for a key that may be absent.\<close>

definition truthy_opt :: "pyval option \<Rightarrow> bool" where
  "truthy_opt v = (case v of None \<Rightarrow> False | Some x \<Rightarrow> truthy x)"

text \<open>
  What a turn does outside the session is recorded in the order it happens: the
  Create-Event tool being run (with the value \<^verbatim>\<open>awaiting_confirm\<close> has in the state it is
  run on), the methods called on the calendar and mail clients, the requests that reach
  the Google APIs, and the completion request.
\<close>

datatype call =
    ToolCreateEvent bool
  | CalGetBusy pyval pyval pyval
  | CalCreateEvent
  | EventsInsert pydict
  | FreeBusyQuery pydict
  | GmSend
  | MessagesSend string
  | LlmComplete

definition is_calendar_call :: "call \<Rightarrow> bool" where
  "is_calendar_call c =
     (case c of CalGetBusy a b z \<Rightarrow> True | CalCreateEvent \<Rightarrow> True
              | EventsInsert b \<Rightarrow> True | FreeBusyQuery b \<Rightarrow> True | _ \<Rightarrow> False)"

text \<open>\<^verbatim>\<open>_new_session\<close>: the state stored for a fresh session.\<close>

definition new_session :: "env \<Rightarrow> agent_state" where
  "new_session e =
     \<lparr>slots = [(''title'', PNone), (''start_iso'', PNone), (''end_iso'', PNone),
               (''timezone'', PStr (DEFAULT_TZ e)), (''attendees'', PList []),
               (''location'', PNone), (''description'', PNone), (''recurrence'', PNone),
               (''link'', PNone)],
      history = [],
      busy = None, created_event = None, email_result = None,
      reply = PStr ''Hi! What should I schedule?'',
      new_user_message = [],
      awaiting_confirm = False,
      confirm_summary = PStr []\<rparr>"

section \<open>Heuristic extraction\<close>

text \<open>Iterating a value, \<^verbatim>\<open>x.lower()\<close> on a value, and \<^verbatim>\<open>sep.join(v)\<close>.\<close>

fun py_iter :: "pyval \<Rightarrow> error + pyval list" where
  "py_iter (PList xs) = Inr xs"
| "py_iter (PStr s) = Inr (map (\<lambda>c. PStr [c]) s)"
| "py_iter (PDict kvs) = Inr (map (\<lambda>kv. PStr (fst kv)) kvs)"
| "py_iter v = Inl (TypeError ''object is not iterable'')"

fun py_lower :: "pyval \<Rightarrow> error + string" where
  "py_lower (PStr s) = Inr (lower s)"
| "py_lower v = Inl (AttributeError ''object has no attribute lower'')"

fun lower_all :: "pyval list \<Rightarrow> error + string list" where
  "lower_all [] = Inr []"
| "lower_all (x # xs) =
     (case py_lower x of
        Inl err \<Rightarrow> Inl err
      | Inr l \<Rightarrow> (case lower_all xs of Inl err \<Rightarrow> Inl err | Inr ls \<Rightarrow> Inr (l # ls)))"

fun str_of :: "pyval \<Rightarrow> string" where
  "str_of (PStr s) = s"
| "str_of v = []"

definition py_join :: "string \<Rightarrow> pyval \<Rightarrow> error + string" where
  "py_join sep v =
     (case py_iter v of
        Inl err \<Rightarrow> Inl err
      | Inr xs \<Rightarrow> (if list_all is_str xs then Inr (join sep (map str_of xs))
                   else Inl (TypeError ''sequence item: expected str instance'')))"

text \<open>\<^verbatim>\<open>s.setdefault("attendees", []).append(e)\<close>.\<close>

definition append_attendee :: "pydict \<Rightarrow> string \<Rightarrow> error + pydict" where
  "append_attendee s em =
     (case map_of s ''attendees'' of
        None \<Rightarrow> Inr (dset s ''attendees'' (PList [PStr em]))
      | Some (PList xs) \<Rightarrow> Inr (dset s ''attendees'' (PList (xs @ [PStr em])))
      | Some v \<Rightarrow> Inl (AttributeError ''object has no attribute append''))"

text \<open>The loop over the e-mails found; \<open>seen\<close> is computed once, before the loop.\<close>

fun add_emails :: "string list \<Rightarrow> string list \<Rightarrow> pydict \<Rightarrow> error + pydict" where
  "add_emails seen [] s = Inr s"
| "add_emails seen (em # ems) s =
     (if lower em \<notin> set seen then
        (case append_attendee s em of
           Inl err \<Rightarrow> Inl err
         | Inr s' \<Rightarrow> add_emails seen ems s')
      else add_emails seen ems s)"

definition extract_emails :: "string \<Rightarrow> pydict \<Rightarrow> error + pydict" where
  "extract_emails t s =
     (let emails = rx_findall EMAIL_RE t
      in if emails \<noteq> [] then
           (case py_iter (py_or (dget s ''attendees'') (PList [])) of
              Inl err \<Rightarrow> Inl err
            | Inr xs \<Rightarrow> (case lower_all xs of
                           Inl err \<Rightarrow> Inl err
                         | Inr seen \<Rightarrow> add_emails seen emails s))
         else Inr s)"

definition extract_link :: "string \<Rightarrow> pydict \<Rightarrow> pydict" where
  "extract_link t s =
     (if \<not> truthy (dget s ''link'') then
        (case rx_search URL_RE t of
           Some (i, j, g) \<Rightarrow> dset s ''link'' (PStr (slice t i j))
         | None \<Rightarrow> s)
      else s)"

definition extract_tz :: "string \<Rightarrow> pydict \<Rightarrow> pydict" where
  "extract_tz t s =
     (case detect_tz_tokens t of
        Some zone \<Rightarrow> (if zone \<noteq> [] then dset s ''timezone'' (PStr zone) else s)
      | None \<Rightarrow> s)"

text \<open>\<^verbatim>\<open>_preextract_slots\<close>. An exception can only be raised before the first write, so
  a failed run leaves the session as it was.\<close>

definition preextract_slots :: "agent_state \<Rightarrow> error + agent_state" where
  "preextract_slots st =
     (let t = new_user_message st
      in if t = [] then Inr st
         else (case extract_emails t (slots st) of
                 Inl err \<Rightarrow> Inl err
               | Inr s1 \<Rightarrow> Inr (st\<lparr>slots := extract_tz t (extract_link t s1)\<rparr>)))"

section \<open>Confirmation summary\<close>

text \<open>\<^verbatim>\<open>CONFIRM_TEMPLATE\<close>; its curly quotation marks are the UTF-8 bytes of U+201C and
  U+201D.\<close>

definition LDQUO :: string where
  "LDQUO = [CHR 0xE2, CHR 0x80, CHR 0x9C]"

definition RDQUO :: string where
  "RDQUO = [CHR 0xE2, CHR 0x80, CHR 0x9D]"

definition CONFIRM_TEMPLATE ::
  "string \<Rightarrow> string \<Rightarrow> string \<Rightarrow> string \<Rightarrow> string \<Rightarrow> string \<Rightarrow> string \<Rightarrow> string" where
  "CONFIRM_TEMPLATE title start end' tz attendees loc link =
     ''Create '' @ LDQUO @ title @ RDQUO @ '' from '' @ start @ '' to '' @ end' @ '' ('' @ tz
     @ '') with attendees ['' @ attendees @ '']'' @ loc @ link @ ''? (yes/no)''"

text \<open>\<^verbatim>\<open>_build_confirm_summary\<close>; \<^verbatim>\<open>join\<close> raises on an attendee that is not a string.\<close>

definition build_confirm_summary :: "env \<Rightarrow> pydict \<Rightarrow> error + string" where
  "build_confirm_summary e s =
     (let title = py_or (dget s ''title'') (PStr ''Untitled'');
          start = py_or (dget s ''start_iso'') (PStr ''?'');
          end' = py_or (dget s ''end_iso'') (PStr ''?'');
          tzid = py_or (dget s ''timezone'') (PStr (DEFAULT_TZ e))
      in case py_join '', '' (py_or (dget s ''attendees'') (PList [])) of
           Inl err \<Rightarrow> Inl err
         | Inr joined \<Rightarrow>
             (let attendees = (if joined \<noteq> [] then joined else ''none'');
                  loc = (if truthy (dget s ''location'')
                         then '', location: '' @ py_str e (dget s ''location'') else []);
                  link = (if truthy (dget s ''link'')
                          then '', link: '' @ py_str e (dget s ''link'') else [])
              in Inr (CONFIRM_TEMPLATE (py_str e title) (py_str e start) (py_str e end')
                        (py_str e tzid) attendees loc link)))"

section \<open>Calendar and mail clients\<close>

text \<open>\<^verbatim>\<open>str(e)\<close> of a caught exception.\<close>

fun err_str :: "error \<Rightarrow> string" where
  "err_str (AttributeError m) = m"
| "err_str (TypeError m) = m"
| "err_str (KeyError m) = m"
| "err_str ValidationError = ''validation error''"
| "err_str (HTTPException c m) = m"
| "err_str (CollaboratorError m) = m"

text \<open>\<^verbatim>\<open>v.get(k)\<close> on a value that one of the clients built as a dictionary.\<close>

fun vget :: "pyval \<Rightarrow> string \<Rightarrow> pyval" where
  "vget (PDict d) k = dget d k"
| "vget v k = PNone"

text \<open>
  \<^verbatim>\<open>CalendarClient\<close> (\<^verbatim>\<open>app/services/calendar_service.py\<close>). An instance has the attribute
  that \<^verbatim>\<open>__init__\<close> assigns and the methods of the class; reading any other name raises
  \<^verbatim>\<open>AttributeError\<close>.
\<close>

definition CalendarClient_names :: "string list" where
  "CalendarClient_names = [''_auth'', ''__init__'', ''_svc'', ''create_event'', ''get_busy'']"

definition CalendarClient_getattr :: "string \<Rightarrow> error + unit" where
  "CalendarClient_getattr name =
     (if name \<in> set CalendarClient_names then Inr ()
      else Inl (AttributeError (QUOTE @ ''CalendarClient'' @ QUOTE @ '' object has no attribute '' @ QUOTE @ name
                          @ QUOTE)))"

text \<open>The list comprehension over the response of the free/busy query.\<close>

definition busy_blocks :: "pydict \<Rightarrow> pyval" where
  "busy_blocks resp =
     (case vget (vget (dget resp ''calendars'') ''primary'') ''busy'' of
        PList bs \<Rightarrow> PList (map (\<lambda>b. PDict [(''start'', vget b ''start''), (''end'', vget b ''end'')]) bs)
      | _ \<Rightarrow> PList [])"

text \<open>\<^verbatim>\<open>CalendarClient.get_busy\<close>: the request is made through \<^verbatim>\<open>self.service\<close>.\<close>

definition get_busy :: "env \<Rightarrow> pyval \<Rightarrow> pyval \<Rightarrow> pyval \<Rightarrow> (error + pyval) \<times> call list" where
  "get_busy e start_iso end_iso tz =
     (let body = [(''timeMin'', start_iso), (''timeMax'', end_iso), (''timeZone'', tz),
                  (''items'', PList [PDict [(''id'', PStr ''primary'')]])]
      in case CalendarClient_getattr ''service'' of
           Inl err \<Rightarrow> (Inl err, [])
         | Inr u \<Rightarrow>
             (case freebusy_query e body of
                Response resp \<Rightarrow> (Inr (busy_blocks resp), [FreeBusyQuery body])
              | HttpError m \<Rightarrow> (Inl (CollaboratorError m), [FreeBusyQuery body])
              | OtherError m \<Rightarrow> (Inl (CollaboratorError m), [FreeBusyQuery body])))"

text \<open>\<^verbatim>\<open>EventIn\<close> (\<^verbatim>\<open>app/domain/schemas.py\<close>): construction validates the field types.\<close>

record event_in =
  ev_title :: string
  ev_start_iso :: string
  ev_end_iso :: string
  ev_timezone :: string
  ev_attendees :: "string list"
  ev_location :: "string option"
  ev_description :: "string option"
  ev_recurrence :: "string option"

fun as_str :: "pyval \<Rightarrow> string option" where
  "as_str (PStr s) = Some s"
| "as_str v = None"

fun as_opt_str :: "pyval \<Rightarrow> string option option" where
  "as_opt_str PNone = Some None"
| "as_opt_str (PStr s) = Some (Some s)"
| "as_opt_str v = None"

fun as_emails :: "env \<Rightarrow> pyval list \<Rightarrow> string list option" where
  "as_emails e [] = Some []"
| "as_emails e (PStr a # xs) =
     (case email_str e a of
        None \<Rightarrow> None
      | Some a' \<Rightarrow> (case as_emails e xs of None \<Rightarrow> None | Some as \<Rightarrow> Some (a' # as)))"
| "as_emails e (v # xs) = None"

definition EventIn ::
  "env \<Rightarrow> pyval \<Rightarrow> pyval \<Rightarrow> pyval \<Rightarrow> pyval \<Rightarrow> pyval \<Rightarrow> pyval \<Rightarrow> pyval \<Rightarrow> pyval
   \<Rightarrow> error + event_in" where
  "EventIn e title start_iso end_iso tz attendees location description recurrence =
     (case (as_str title, as_str start_iso, as_str end_iso, as_str tz) of
        (Some t, Some s, Some en, Some z) \<Rightarrow>
          (case (case attendees of PList xs \<Rightarrow> as_emails e xs | _ \<Rightarrow> None,
                 as_opt_str location, as_opt_str description, as_opt_str recurrence) of
             (Some atts, Some loc, Some desc, Some rec) \<Rightarrow>
               (if t \<noteq> [] then
                  Inr \<lparr>ev_title = t, ev_start_iso = s, ev_end_iso = en, ev_timezone = z,
                       ev_attendees = atts, ev_location = loc, ev_description = desc,
                       ev_recurrence = rec\<rparr>
                else Inl ValidationError)
           | _ \<Rightarrow> Inl ValidationError)
      | _ \<Rightarrow> Inl ValidationError)"

text \<open>\<^verbatim>\<open>CalendarClient.create_event\<close>: only \<^verbatim>\<open>HttpError\<close> is caught.\<close>

definition opt_field :: "string \<Rightarrow> string option \<Rightarrow> (string \<Rightarrow> pyval) \<Rightarrow> pydict" where
  "opt_field k v f = (case v of None \<Rightarrow> [] | Some x \<Rightarrow> (if x \<noteq> [] then [(k, f x)] else []))"

definition event_body :: "event_in \<Rightarrow> pydict" where
  "event_body ev =
     [(''summary'', PStr (ev_title ev)),
      (''start'', PDict [(''dateTime'', PStr (ev_start_iso ev)), (''timeZone'', PStr (ev_timezone ev))]),
      (''end'', PDict [(''dateTime'', PStr (ev_end_iso ev)), (''timeZone'', PStr (ev_timezone ev))])]
     @ (if ev_attendees ev \<noteq> []
        then [(''attendees'', PList (map (\<lambda>a. PDict [(''email'', PStr a)]) (ev_attendees ev)))]
        else [])
     @ opt_field ''location'' (ev_location ev) PStr
     @ opt_field ''description'' (ev_description ev) PStr
     @ opt_field ''recurrence'' (ev_recurrence ev) (\<lambda>r. PList [PStr r])"

definition create_event :: "env \<Rightarrow> event_in \<Rightarrow> (error + pyval) \<times> call list" where
  "create_event e ev =
     (let body = event_body ev
      in case events_insert e body of
           Response r \<Rightarrow>
             (Inr (PDict [(''ok'', PBool True),
                          (''data'', PDict [(''id'', dget r ''id''), (''link'', dget r ''htmlLink'')])]),
              [CalCreateEvent, EventsInsert body])
         | HttpError m \<Rightarrow>
             (Inr (PDict [(''ok'', PBool False), (''error'', PStr m)]),
              [CalCreateEvent, EventsInsert body])
         | OtherError m \<Rightarrow> (Inl (CollaboratorError m), [CalCreateEvent, EventsInsert body]))"

text \<open>\<^verbatim>\<open>GmailClient.send\<close>; the request is recorded with the message before its base64
  encoding.\<close>

definition gm_send :: "env \<Rightarrow> pyval \<Rightarrow> string \<Rightarrow> string \<Rightarrow> (error + pyval) \<times> call list" where
  "gm_send e to subject body_text =
     (if gmail_from e = [] then
        (Inr (PDict [(''ok'', PBool False), (''error'', PStr ''GMAIL_FROM not set'')]), [GmSend])
      else (case py_join '', '' to of
              Inl err \<Rightarrow> (Inl err, [GmSend])
            | Inr tos \<Rightarrow>
                (let msg = ''From: '' @ gmail_from e @ ''\<newline>To: '' @ tos @ ''\<newline>Subject: ''
                           @ subject @ ''\<newline>\<newline>'' @ body_text
                 in case messages_send e msg of
                      Response sent \<Rightarrow>
                        (Inr (PDict [(''ok'', PBool True),
                                     (''data'', PDict [(''id'', dget sent ''id'')])]),
                         [GmSend, MessagesSend msg])
                    | HttpError m \<Rightarrow>
                        (Inr (PDict [(''ok'', PBool False), (''error'', PStr m)]),
                         [GmSend, MessagesSend msg])
                    | OtherError m \<Rightarrow> (Inl (CollaboratorError m), [GmSend, MessagesSend msg]))))"

section \<open>Tools\<close>

text \<open>\<^verbatim>\<open>tool_check_availability\<close>: \<^verbatim>\<open>except Exception\<close> catches whatever the client raises.\<close>

definition tool_check_availability :: "env \<Rightarrow> agent_state \<Rightarrow> upd list \<times> call list" where
  "tool_check_availability e st =
     (let s = slots st
      in if \<not> (truthy (dget s ''start_iso'') \<and> truthy (dget s ''end_iso'')
                \<and> truthy (dget s ''timezone''))
         then ([Reply (PStr ''I need start time, end time, and timezone to check availability.'')],
               [])
         else (case get_busy e (dget s ''start_iso'') (dget s ''end_iso'') (dget s ''timezone'') of
                 (Inr b, cs) \<Rightarrow>
                   (if truthy b
                    then [Busy b, Reply (PStr ''That time conflicts with another event.'')]
                    else [Busy (PList []), Reply (PStr ''You're free at that time.'')],
                    CalGetBusy (dget s ''start_iso'') (dget s ''end_iso'') (dget s ''timezone'') # cs)
               | (Inl err, cs) \<Rightarrow>
                   ([Reply (PStr (''Availability check failed: '' @ err_str err))],
                    CalGetBusy (dget s ''start_iso'') (dget s ''end_iso'') (dget s ''timezone'') # cs)))"

definition EVENT_LINK_LABEL :: string where
  "EVENT_LINK_LABEL = ''Link''"

text \<open>The description of the event, with the link line appended when a link is set and the
  description does not mention one.\<close>

definition event_description :: "env \<Rightarrow> pydict \<Rightarrow> error + pyval" where
  "event_description e s =
     (let desc = py_or (dget s ''description'') (PStr [])
      in if truthy (dget s ''link'') then
           (case py_lower desc of
              Inl err \<Rightarrow> Inl err
            | Inr low \<Rightarrow>
                (if \<not> contains (lower EVENT_LINK_LABEL) low
                 then Inr (PStr ((if truthy desc then str_of desc @ ''\<newline>'' else [])
                                 @ EVENT_LINK_LABEL @ '': '' @ py_str e (dget s ''link'')))
                 else Inr desc))
         else Inr desc)"

text \<open>The link preferred from the result of \<^verbatim>\<open>cal.create_event\<close>.\<close>

definition created_link :: "pyval \<Rightarrow> pyval" where
  "created_link created =
     (let data = py_or (vget created ''data'') (PDict [])
      in py_or (py_or (vget data ''link'') (vget created ''htmlLink'')) (vget data ''htmlLink''))"

text \<open>\<^verbatim>\<open>tool_create_event\<close>: the outcome, the slots as the tool leaves them, and the
  calls made.\<close>

definition tool_create_event :: "env \<Rightarrow> agent_state \<Rightarrow> (error + upd list) \<times> pydict \<times> call list" where
  "tool_create_event e st =
     (let s = slots st;
          entered = [ToolCreateEvent (awaiting_confirm st)];
          miss = missing e s
      in if miss \<noteq> [] then
           (Inr [Reply (PStr (''Still missing: '' @ join '', '' miss @ ''.''))], s, entered)
         else (case event_description e s of
                 Inl err \<Rightarrow> (Inl err, s, entered)
               | Inr desc \<Rightarrow>
                   (case EventIn e (dget s ''title'') (dget s ''start_iso'') (dget s ''end_iso'')
                           (dget s ''timezone'') (py_or (dget s ''attendees'') (PList []))
                           (dget s ''location'') (py_or desc PNone) (dget s ''recurrence'') of
                      Inl err \<Rightarrow> (Inl err, s, entered)
                    | Inr event \<Rightarrow>
                        (case create_event e event of
                           (Inl err, cs) \<Rightarrow> (Inl err, s, entered @ cs)
                         | (Inr created, cs) \<Rightarrow>
                             (let link = created_link created;
                                  s' = (if truthy link then dset s ''link'' link else s)
                              in (Inr [CreatedEvent created, Reply (PStr ''Event created.'')],
                                  s', entered @ cs))))))"

text \<open>\<^verbatim>\<open>s[k]\<close>: a missing key raises.\<close>

definition dreq :: "pydict \<Rightarrow> string \<Rightarrow> error + pyval" where
  "dreq d k = (case map_of d k of None \<Rightarrow> Inl (KeyError k) | Some v \<Rightarrow> Inr v)"

definition EMAIL_SUBJECT_TPL :: "string \<Rightarrow> string" where
  "EMAIL_SUBJECT_TPL title = ''Invite: '' @ title"

definition EMAIL_BODY_TPL :: "string \<Rightarrow> string \<Rightarrow> string \<Rightarrow> string \<Rightarrow> string \<Rightarrow> string" where
  "EMAIL_BODY_TPL title start end' tz linkline =
     ''You're invited to '' @ QUOTE @ title @ QUOTE @ ''.\<newline>Start: '' @ start @ ''\<newline>End: '' @ end'
     @ ''\<newline>Timezone: '' @ tz @ ''\<newline>'' @ linkline"

text \<open>\<^verbatim>\<open>tool_send_email\<close>.\<close>

definition tool_send_email :: "env \<Rightarrow> agent_state \<Rightarrow> bool \<Rightarrow> (error + upd list) \<times> call list" where
  "tool_send_email e st yes =
     (if \<not> yes then (Inr [Reply (PStr ''Okay, no email sent.'')], [])
      else (case created_event st of
              None \<Rightarrow> (Inr [Reply (PStr ''I couldn't find the event I just created.'')], [])
            | Some ev \<Rightarrow>
                (if \<not> truthy ev
                 then (Inr [Reply (PStr ''I couldn't find the event I just created.'')], [])
                 else (let s = slots st; atts = py_or (dget s ''attendees'') (PList [])
                       in if \<not> truthy atts
                          then (Inr [Reply (PStr ''Event created. (No attendees to email.)'')], [])
                          else (case (dreq s ''title'', dreq s ''start_iso'', dreq s ''end_iso'',
                                      dreq s ''timezone'') of
                                  (Inr title, Inr start, Inr end', Inr tz) \<Rightarrow>
                                    (let link = py_or (py_or (py_or
                                                  (vget (py_or (vget ev ''data'') (PDict [])) ''link'')
                                                  (vget ev ''htmlLink'')) (dget s ''link'')) (PStr []);
                                         subject = EMAIL_SUBJECT_TPL (py_str e title);
                                         linkline = (if truthy link then ''Link: '' @ py_str e link
                                                     else []);
                                         body = EMAIL_BODY_TPL (py_str e title) (py_str e start)
                                                  (py_str e end') (py_str e tz) linkline
                                     in case gm_send e atts subject body of
                                          (Inl err, cs) \<Rightarrow> (Inl err, cs)
                                        | (Inr result, cs) \<Rightarrow>
                                            (Inr [EmailResult result,
                                                  Reply (PStr ''Event created and email sent.'')], cs))
                                | (Inl err, _, _, _) \<Rightarrow> (Inl err, [])
                                | (_, Inl err, _, _) \<Rightarrow> (Inl err, [])
                                | (_, _, Inl err, _) \<Rightarrow> (Inl err, [])
                                | (_, _, _, Inl err) \<Rightarrow> (Inl err, []))))))"

section \<open>Policy step\<close>

text \<open>\<^verbatim>\<open>raw.index("{")\<close> and \<^verbatim>\<open>raw.rindex("}")\<close>; \<^verbatim>\<open>None\<close> stands for \<^verbatim>\<open>ValueError\<close>.\<close>

definition index_of :: "char \<Rightarrow> string \<Rightarrow> nat option" where
  "index_of c s = (if c \<in> set s then Some (length (takeWhile (\<lambda>x. x \<noteq> c) s)) else None)"

definition rindex_of :: "char \<Rightarrow> string \<Rightarrow> nat option" where
  "rindex_of c s =
     (if c \<in> set s then Some (length s - 1 - length (takeWhile (\<lambda>x. x \<noteq> c) (rev s))) else None)"

text \<open>The \<^verbatim>\<open>try\<close> block: \<^verbatim>\<open>None\<close> when anything in it raises. A last brace before the
  first one gives the empty slice, which \<^verbatim>\<open>json.loads\<close> rejects.\<close>

definition decode_decision :: "env \<Rightarrow> string \<Rightarrow> pyval option" where
  "decode_decision e raw =
     (case (index_of (CHR ''{'') raw, rindex_of (CHR ''}'') raw) of
        (Some i, Some j) \<Rightarrow> (if i \<le> j then json_loads e (slice raw i (Suc j)) else None)
      | _ \<Rightarrow> None)"

text \<open>The end shared by the fallback and by \<^verbatim>\<open>set\<close>: list the gaps, or ask to confirm.\<close>

definition confirm_updates :: "pyval \<Rightarrow> upd list" where
  "confirm_updates summary = [AwaitingConfirm True, ConfirmSummary summary, Reply summary]"

definition missing_or_confirm :: "env \<Rightarrow> pydict \<Rightarrow> error + upd list" where
  "missing_or_confirm e s =
     (let miss = missing e s
      in if miss \<noteq> [] then Inr [Reply (PStr (''Missing: '' @ join '', '' miss @ ''.''))]
         else (case build_confirm_summary e s of
                 Inl err \<Rightarrow> Inl err
               | Inr summary \<Rightarrow> Inr (confirm_updates (PStr summary))))"

text \<open>The \<^verbatim>\<open>except\<close> branch of \<^verbatim>\<open>decide_and_act\<close>.\<close>

definition fallback :: "env \<Rightarrow> agent_state \<Rightarrow> (error + upd list) \<times> agent_state" where
  "fallback e st =
     (let s = slots st;
          s' = (if \<not> truthy (dget s ''title'')
                then dset s ''title''
                       (PStr (cheap_title (if new_user_message st \<noteq> [] then new_user_message st
                                           else ''Meeting'')))
                else s)
      in (missing_or_confirm e s', st\<lparr>slots := s'\<rparr>))"

text \<open>\<^verbatim>\<open>args.get(k)\<close>, which needs \<^verbatim>\<open>args\<close> to be a dictionary.\<close>

definition args_get :: "pyval \<Rightarrow> string \<Rightarrow> error + pyval option" where
  "args_get a k =
     (case a of PDict d \<Rightarrow> Inr (map_of d k)
              | _ \<Rightarrow> Inl (AttributeError ''object has no attribute get''))"

definition or_none :: "pyval option \<Rightarrow> pyval" where
  "or_none v = (case v of None \<Rightarrow> PNone | Some x \<Rightarrow> x)"

text \<open>The loop of \<^verbatim>\<open>set\<close> over \<^verbatim>\<open>args.items()\<close>.\<close>

fun set_slots :: "pydict \<Rightarrow> pydict \<Rightarrow> pydict" where
  "set_slots [] s = s"
| "set_slots ((k, v) # kvs) s =
     set_slots kvs (if map_of s k \<noteq> None \<and> v \<noteq> PNone \<and> v \<noteq> PStr [] \<and> v \<noteq> PList []
                    then dset s k v else s)"

text \<open>The dispatch on the decoded decision.\<close>

definition dispatch :: "env \<Rightarrow> agent_state \<Rightarrow> pydict \<Rightarrow> (error + upd list) \<times> agent_state \<times> call list" where
  "dispatch e st decision =
     (case py_lower (py_or (dget decision ''action'') (PStr [])) of
        Inl err \<Rightarrow> (Inl err, st, [])
      | Inr action \<Rightarrow>
         (let args = py_or (dget decision ''args'') (PDict [])
          in if action = ''ask'' then
               (case args_get args ''question'' of
                  Inl err \<Rightarrow> (Inl err, st, [])
                | Inr q \<Rightarrow> (Inr [Reply (py_or (or_none q) (PStr ''What should I provide next?''))],
                            st, []))
             else if action = ''set'' then
               (case args of
                  PDict kvs \<Rightarrow>
                    (let s' = normalize_times e (set_slots kvs (slots st))
                     in (missing_or_confirm e s', st\<lparr>slots := s'\<rparr>, []))
                | _ \<Rightarrow> (Inl (AttributeError ''object has no attribute items''), st, []))
             else if action = ''confirm'' then
               (case args_get args ''summary'' of
                  Inl err \<Rightarrow> (Inl err, st, [])
                | Inr sm \<Rightarrow>
                    (if truthy (or_none sm) then (Inr (confirm_updates (or_none sm)), st, [])
                     else (case build_confirm_summary e (slots st) of
                             Inl err \<Rightarrow> (Inl err, st, [])
                           | Inr summary \<Rightarrow> (Inr (confirm_updates (PStr summary)), st, []))))
             else if action = ''check_availability'' then
               (case tool_check_availability e st of (ups, cs) \<Rightarrow> (Inr ups, st, cs))
             else if action = ''create_event'' then
               (if \<not> awaiting_confirm st then
                  (case build_confirm_summary e (slots st) of
                     Inl err \<Rightarrow> (Inl err, st, [])
                   | Inr summary \<Rightarrow> (Inr (confirm_updates (PStr summary)), st, []))
                else (case tool_create_event e st of (r, s', cs) \<Rightarrow> (r, st\<lparr>slots := s'\<rparr>, cs)))
             else if action = ''send_email'' then
               (case args_get args ''yes'' of
                  Inl err \<Rightarrow> (Inl err, st, [])
                | Inr y \<Rightarrow>
                    (case tool_send_email e st (case y of None \<Rightarrow> True | Some v \<Rightarrow> truthy v) of
                       (r, cs) \<Rightarrow> (r, st, cs)))
             else if action = ''finish'' then
               (case args_get args ''message'' of
                  Inl err \<Rightarrow> (Inl err, st, [])
                | Inr m \<Rightarrow> (Inr [Reply (case m of None \<Rightarrow> PStr ''All set.'' | Some v \<Rightarrow> v)], st, []))
             else (Inr [Reply (PStr ''Please provide the next detail.'')], st, [])))"

text \<open>
  \<^verbatim>\<open>decide_and_act\<close>: the outcome, the state with the slots as the step leaves them, and
  the calls made. The prompt is built from the session and the date and only goes to the
  completion, whose answer for this turn is \<open>llm_complete e\<close>.
\<close>

definition decide_and_act :: "env \<Rightarrow> agent_state \<Rightarrow> (error + upd list) \<times> agent_state \<times> call list" where
  "decide_and_act e st0 =
     (case preextract_slots st0 of
        Inl err \<Rightarrow> (Inl err, st0, [])
      | Inr st1 \<Rightarrow>
         (let st = st1\<lparr>slots := normalize_times e (slots st1)\<rparr>
          in case llm_complete e of
               Inl err \<Rightarrow> (Inl err, st, [LlmComplete])
             | Inr answer \<Rightarrow>
                 (case decode_decision e (strip answer) of
                    None \<Rightarrow> (case fallback e st of (r, st') \<Rightarrow> (r, st', [LlmComplete]))
                  | Some (PDict decision) \<Rightarrow>
                      (case dispatch e st decision of (r, st', cs) \<Rightarrow> (r, st', LlmComplete # cs))
                  | Some v \<Rightarrow>
                      (Inl (AttributeError ''object has no attribute get''), st, [LlmComplete]))))"

text \<open>
  \<^verbatim>\<open>APP_GRAPH.invoke(state)\<close>. The graph has the one node \<^verbatim>\<open>decide_and_act\<close>, and
  \<^verbatim>\<open>invoke\<close> returns the values of all state channels after the run: the keys of the
  input overlaid with what the node returned.
\<close>

definition APP_GRAPH_invoke :: "env \<Rightarrow> agent_state \<Rightarrow> (error + agent_state) \<times> agent_state \<times> call list" where
  "APP_GRAPH_invoke e st =
     (case decide_and_act e st of
        (Inl err, st', cs) \<Rightarrow> (Inl err, st', cs)
      | (Inr ups, st', cs) \<Rightarrow> (Inr (state_update st' ups), st', cs))"

section \<open>Chat handler\<close>

text \<open>\<^verbatim>\<open>ChatOut\<close> without the session id; constructing it validates that the reply is a
  string.\<close>

record chat_out =
  out_reply :: string
  out_slots :: pydict
  out_done :: bool
  out_data :: "pydict option"

definition ChatOut :: "pyval \<Rightarrow> pydict \<Rightarrow> bool \<Rightarrow> pydict option \<Rightarrow> error + chat_out" where
  "ChatOut r s d dt =
     (case r of
        PStr t \<Rightarrow> Inr \<lparr>out_reply = t, out_slots = s, out_done = d, out_data = dt\<rparr>
      | _ \<Rightarrow> Inl ValidationError)"

definition say :: "agent_state \<Rightarrow> pyval \<Rightarrow> agent_state" where
  "say st r = st\<lparr>history := history st @ [(''assistant'', r)]\<rparr>"

definition close_confirm :: "agent_state \<Rightarrow> agent_state" where
  "close_confirm st = st\<lparr>awaiting_confirm := False, confirm_summary := PStr [], new_user_message := []\<rparr>"

text \<open>\<^verbatim>\<open>data[k] = state[k]\<close> under \<^verbatim>\<open>if state.get(k)\<close>.\<close>

definition entry :: "string \<Rightarrow> pyval option \<Rightarrow> pydict" where
  "entry k v = (case v of None \<Rightarrow> [] | Some x \<Rightarrow> (if truthy x then [(k, x)] else []))"

text \<open>The explicit availability path.\<close>

definition availability_turn :: "env \<Rightarrow> agent_state \<Rightarrow> (error + chat_out) \<times> agent_state \<times> call list" where
  "availability_turn e st =
     (case preextract_slots st of
        Inl err \<Rightarrow> (Inl err, st, [])
      | Inr st1 \<Rightarrow>
         (let st2 = st1\<lparr>slots := normalize_times e (slots st1)\<rparr>;
              miss = missing e (slots st2)
          in if miss \<noteq> [] then
               (let r = PStr (''Missing for availability check: '' @ join '', '' miss @ ''.'');
                    st3 = say (st2\<lparr>new_user_message := []\<rparr>) r
                in (ChatOut r (slots st3) False None, st3, []))
             else
               (case tool_check_availability e st2 of
                  (ups, cs) \<Rightarrow>
                    (let st3 = (state_update st2 ups)\<lparr>new_user_message := []\<rparr>;
                         r = reply st3;
                         st4 = (if truthy r then say st3 r else st3)
                     in (ChatOut r (slots st4) False None, st4, cs)))))"

text \<open>The block that both the confirmation loop and the continue-without-confirm branch
  run: create, then mail unless the message says not to.\<close>

definition create_turn :: "env \<Rightarrow> string \<Rightarrow> agent_state \<Rightarrow> (error + chat_out) \<times> agent_state \<times> call list" where
  "create_turn e t st =
     (case tool_create_event e st of
        (Inl err, s', cs) \<Rightarrow> (Inl err, st\<lparr>slots := s'\<rparr>, cs)
      | (Inr ups, s', cs) \<Rightarrow>
         (let st1 = state_update (st\<lparr>slots := s'\<rparr>) ups
          in if truthy_opt (created_event st1) then
               (if \<not> wants_no_email t then
                  (case tool_send_email e st1 True of
                     (Inl err, cs2) \<Rightarrow> (Inl err, st1, cs @ cs2)
                   | (Inr ups2, cs2) \<Rightarrow>
                       (let st2 = state_update st1 ups2;
                            dt = entry ''event'' (created_event st1) @ entry ''email'' (email_result st2);
                            r = reply st2;
                            st3 = say (close_confirm st2) r
                        in (ChatOut r (slots st3) True (Some dt), st3, cs @ cs2)))
                else
                  (let r = PStr ''Event created. (Skipped email.)'';
                       st3 = say (close_confirm st1) r
                   in (ChatOut r (slots st3) True (Some (entry ''event'' (created_event st1))),
                       st3, cs)))
             else
               (let r = reply st1;
                    st3 = say (close_confirm st1) r
                in (ChatOut r (slots st3) False None, st3, cs))))"

text \<open>One policy step through the graph, and the follow-up mail.\<close>

definition policy_turn :: "env \<Rightarrow> string \<Rightarrow> agent_state \<Rightarrow> (error + chat_out) \<times> agent_state \<times> call list" where
  "policy_turn e t st =
     (case APP_GRAPH_invoke e st of
        (Inl err, st', cs) \<Rightarrow> (Inl err, st', cs)
      | (Inr updates, st', cs) \<Rightarrow>
         (let st1 = updates\<lparr>new_user_message := []\<rparr>;
              created_now = truthy_opt (created_event updates)
          in if created_now then
               (if \<not> wants_no_email t then
                  (case tool_send_email e st1 True of
                     (Inl err, cs2) \<Rightarrow> (Inl err, st1, cs @ cs2)
                   | (Inr ups2, cs2) \<Rightarrow>
                       (let st2 = state_update st1 ups2;
                            dt = entry ''event'' (created_event st1) @ entry ''email'' (email_result st2);
                            r = reply st2;
                            st3 = st2\<lparr>awaiting_confirm := False, confirm_summary := PStr []\<rparr>;
                            st4 = (if truthy r then say st3 r else st3)
                        in (ChatOut r (slots st4) (truthy_opt (created_event st4)) (Some dt),
                            st4, cs @ cs2)))
                else
                  (let r = PStr ''Event created. (Skipped email.)'';
                       st3 = st1\<lparr>awaiting_confirm := False, confirm_summary := PStr []\<rparr>;
                       st4 = say st3 r
                   in (ChatOut r (slots st4) (truthy_opt (created_event st4))
                         (Some (entry ''event'' (created_event st1))), st4, cs)))
             else
               (let r = reply st1;
                    st4 = (if truthy r then say st1 r else st1)
                in (ChatOut r (slots st4) (truthy_opt (created_event st4)) (Some []), st4, cs))))"

text \<open>
  \<^verbatim>\<open>agent_chat\<close>, from the point where \<^verbatim>\<open>_get_session\<close> has returned the session: the
  outcome of the request, the session as the turn leaves it (also when the turn raises),
  and the calls made. The session store, its time-to-live and \<^verbatim>\<open>_reap\<close> are not modelled.
\<close>

definition agent_chat :: "env \<Rightarrow> agent_state \<Rightarrow> string \<Rightarrow> (error + chat_out) \<times> agent_state \<times> call list" where
  "agent_chat e st0 message =
     (let t = strip message;
          st = st0\<lparr>history := history st0 @ [(''user'', PStr t)], new_user_message := t\<rparr>
      in if wants_check_availability t then availability_turn e st
         else if awaiting_confirm st \<and> is_affirmative t then create_turn e t st
         else if awaiting_confirm st \<and> is_negative t then
           (let r = PStr ''Okay, what would you like to change?'';
                st1 = say (close_confirm st) r
            in (ChatOut r (slots st1) False None, st1, []))
         else
           (case preextract_slots st of
              Inl err \<Rightarrow> (Inl err, st, [])
            | Inr st1 \<Rightarrow>
               (let st2 = st1\<lparr>slots := normalize_times e (slots st1)\<rparr>
                in if \<not> awaiting_confirm st2 \<and> missing e (slots st2) = [] \<and> is_affirmative t then
                     (case build_confirm_summary e (slots st2) of
                        Inl err \<Rightarrow> (Inl err, st2\<lparr>awaiting_confirm := True\<rparr>, [])
                      | Inr summary \<Rightarrow>
                          create_turn e t (st2\<lparr>awaiting_confirm := True,
                                                confirm_summary := PStr summary\<rparr>))
                   else policy_turn e t st2)))"

text \<open>A conversation: the turns of one session in order, each with the environment it
  meets. The session goes on after a turn that raised.\<close>

fun run :: "(env \<times> string) list \<Rightarrow> agent_state \<Rightarrow> agent_state \<times> call list" where
  "run [] st = (st, [])"
| "run ((e, message) # turns) st =
     (case agent_chat e st message of
        (r, st', cs) \<Rightarrow> (case run turns st' of (st'', cs') \<Rightarrow> (st'', cs @ cs')))"

section \<open>Example inputs\<close>

text \<open>
  A concrete environment and concrete sessions, used where a theorem is applied to an
  input. The parser knows the two times of the example and orders them; the completion
  answers with text that holds no JSON object; the calendar and the mail API accept
  every request.
\<close>

definition example_env :: env where
  "example_env =
     \<lparr>default_timezone = ''America/Chicago'',
      gmail_from = ''me@example.com'',
      dtparse = (\<lambda>s. if s = ''2025-08-18T10:00:00'' then Some \<lparr>isoformat = s, instant = 600\<rparr>
                     else if s = ''2025-08-18T10:30:00'' then Some \<lparr>isoformat = s, instant = 630\<rparr>
                     else None),
      json_loads = (\<lambda>s. if s = ''{ask}''
                         then Some (PDict [(''action'', PStr ''ask''),
                                           (''args'', PDict [(''question'', PStr ''Anything else?'')])])
                         else if s = ''{create}''
                         then Some (PDict [(''action'', PStr ''create_event''), (''args'', PDict [])])
                         else None),
      str_other = (\<lambda>v. ''?''),
      email_str = Some,
      llm_complete = Inr ''I cannot answer in JSON.'',
      events_insert = (\<lambda>b. Response [(''id'', PStr ''ev1''), (''htmlLink'', PStr ''https://cal/ev1'')]),
      freebusy_query = (\<lambda>b. Response []),
      messages_send = (\<lambda>m. Response [(''id'', PStr ''m1'')])\<rparr>"

text \<open>The slots of the spec's first scenario, and a session that holds them.\<close>

definition ready_slots :: pydict where
  "ready_slots =
     [(''title'', PStr ''Sync''), (''start_iso'', PStr ''2025-08-18T10:00:00''),
      (''end_iso'', PStr ''2025-08-18T10:30:00''), (''timezone'', PStr ''America/Chicago''),
      (''attendees'', PList [PStr ''a@example.com'']), (''location'', PNone),
      (''description'', PNone), (''recurrence'', PNone), (''link'', PNone)]"

definition ready_session :: agent_state where
  "ready_session = (new_session example_env)\<lparr>slots := ready_slots\<rparr>"

definition confirming_session :: agent_state where
  "confirming_session = ready_session\<lparr>awaiting_confirm := True\<rparr>"

text \<open>The required fields that are plainly absent: the first line of \<^verbatim>\<open>_missing\<close>.\<close>

definition absent :: "pydict \<Rightarrow> string list" where
  "absent s = filter (\<lambda>k. \<not> truthy (dget s k)) REQUIRED"

text \<open>Slots whose start is missing while the end is the earlier time of the example.\<close>

definition late_start_slots :: pydict where
  "late_start_slots =
     [(''title'', PStr ''Sync''), (''start_iso'', PNone),
      (''end_iso'', PStr ''2025-08-18T10:00:00''), (''timezone'', PStr ''America/Chicago'')]"

text \<open>The text of the exception that reading \<^verbatim>\<open>self.service\<close> raises.\<close>

definition NO_SERVICE :: string where
  "NO_SERVICE = QUOTE @ ''CalendarClient'' @ QUOTE @ '' object has no attribute '' @ QUOTE
                @ ''service'' @ QUOTE"





definition gate :: "call list \<Rightarrow> bool" where
  "gate cs = (ToolCreateEvent False \<notin> set cs)"

definition creates :: "upd list \<Rightarrow> bool" where
  "creates ups = (\<exists>ev. CreatedEvent ev \<in> set ups)"

definition turn_ok :: "agent_state \<Rightarrow> agent_state \<Rightarrow> call list \<Rightarrow> bool" where
  "turn_ok st st' cs =
     (gate cs \<and> (created_event st' \<noteq> created_event st \<longrightarrow> ToolCreateEvent True \<in> set cs))"

definition create_env :: env where
  "create_env = example_env\<lparr>llm_complete := Inr ''{create}''\<rparr>"

definition asking_session :: agent_state where
  "asking_session = ready_session\<lparr>new_user_message := ''book it''\<rparr>"

definition ready_summary :: string where
  "ready_summary = CONFIRM_TEMPLATE ''Sync'' ''2025-08-18T10:00:00'' ''2025-08-18T10:30:00''
                     ''America/Chicago'' ''a@example.com'' [] []"

definition failed_result :: "string \<Rightarrow> pyval" where
  "failed_result m = PDict [(''ok'', PBool False), (''error'', PStr m)]"

definition failing_env :: env where
  "failing_env = example_env\<lparr>events_insert := (\<lambda>b. HttpError ''HttpError 403'')\<rparr>"

definition ready_event :: event_in where
  "ready_event = \<lparr>ev_title = ''Sync'', ev_start_iso = ''2025-08-18T10:00:00'',
                   ev_end_iso = ''2025-08-18T10:30:00'', ev_timezone = ''America/Chicago'',
                   ev_attendees = [''a@example.com''], ev_location = None, ev_description = None,
                   ev_recurrence = None\<rparr>"



text \<open>Whether the Create-Event tool is run among the calls of a turn.\<close>

definition tool_runs :: "call list \<Rightarrow> bool" where
  "tool_runs cs = (ToolCreateEvent True \<in> set cs \<or> ToolCreateEvent False \<in> set cs)"

text \<open>An environment whose completion decodes to the action \<^verbatim>\<open>ask\<close>, and the session as
  the confirming turn "yes" leaves it: the event is created and recorded.\<close>

definition ask_env :: env where
  "ask_env = example_env\<lparr>llm_complete := Inr ''{ask}''\<rparr>"

definition booked_session :: agent_state where
  "booked_session = fst (snd (agent_chat example_env confirming_session ''yes''))"

section \<open>Dictionaries\<close>

lemma map_of_dset: "map_of (dset s k v) k' = (if k' = k then Some v else map_of s k')"
  by (induction s) auto

lemma dget_dset: "dget (dset s k v) k' = (if k' = k then v else dget s k')"
  by (simp add: dget_def map_of_dset)

section \<open>The validator\<close>


lemma missing_length: "length (missing e s) \<le> Suc (length (absent s))"
  by (simp add: missing_def absent_def Let_def split: pyval.splits option.splits)

lemma missing_ge: "length (absent s) \<le> length (missing e s)"
  by (simp add: missing_def absent_def Let_def split: pyval.splits option.splits)

lemma absent_fill:
  "k \<in> set REQUIRED \<Longrightarrow> \<not> truthy (dget s k) \<Longrightarrow> truthy v \<Longrightarrow>
   Suc (length (absent (dset s k v))) = length (absent s)"
  by (auto simp add: absent_def REQUIRED_def dget_dset)

lemma order_label_new: "ORDER_LABEL \<notin> set REQUIRED"
  by (simp add: ORDER_LABEL_def REQUIRED_def)

lemma missing_order:
  "dget s ''start_iso'' = PStr si \<Longrightarrow> dget s ''end_iso'' = PStr ei \<Longrightarrow> si \<noteq> [] \<Longrightarrow> ei \<noteq> [] \<Longrightarrow>
   parse_dt e si = Some a \<Longrightarrow> parse_dt e ei = Some b \<Longrightarrow> b \<le> a \<Longrightarrow>
   ORDER_LABEL \<in> set (missing e s)"
  by (simp add: missing_def)

text \<open>
  Claim C5. Filling a required field that was missing with a value that counts as present
  never makes the validator's list longer: one absence label goes, and at most the
  ordering label comes. And whenever both times are non-empty strings that parse, with the
  start not before the end, the list holds the ordering label, which is none of the
  names of the required fields.
\<close>

theorem missing_monotone:
  "(k \<in> set REQUIRED \<and> \<not> truthy (dget s k) \<and> truthy v
      \<longrightarrow> length (missing e (dset s k v)) \<le> length (missing e s))
   \<and> (dget s ''start_iso'' = PStr si \<and> dget s ''end_iso'' = PStr ei \<and> si \<noteq> [] \<and> ei \<noteq> []
        \<and> parse_dt e si = Some a \<and> parse_dt e ei = Some b \<and> b \<le> a
      \<longrightarrow> ORDER_LABEL \<in> set (missing e s) \<and> ORDER_LABEL \<notin> set REQUIRED)"
proof (intro conjI impI)
  assume h: "k \<in> set REQUIRED \<and> \<not> truthy (dget s k) \<and> truthy v"
  have "length (missing e (dset s k v)) \<le> Suc (length (absent (dset s k v)))"
    by (rule missing_length)
  also have "\<dots> = length (absent s)"
    using h by (simp add: absent_fill)
  also have "\<dots> \<le> length (missing e s)"
    by (rule missing_ge)
  finally show "length (missing e (dset s k v)) \<le> length (missing e s)" .
next
  assume "dget s ''start_iso'' = PStr si \<and> dget s ''end_iso'' = PStr ei \<and> si \<noteq> [] \<and> ei \<noteq> []
        \<and> parse_dt e si = Some a \<and> parse_dt e ei = Some b \<and> b \<le> a"
  then show "ORDER_LABEL \<in> set (missing e s)" by (simp add: missing_order)
next
  show "ORDER_LABEL \<notin> set REQUIRED" by (rule order_label_new)
qed

theorem missing_monotone_witness:
  "(''start_iso'' \<in> set REQUIRED \<and> \<not> truthy (dget late_start_slots ''start_iso'')
      \<and> truthy (PStr ''2025-08-18T10:30:00'')
      \<and> length (missing example_env (dset late_start_slots ''start_iso'' (PStr ''2025-08-18T10:30:00'')))
          \<le> length (missing example_env late_start_slots))
   \<and> (dget ready_slots ''start_iso'' = PStr ''2025-08-18T10:00:00''
        \<and> dget (dset ready_slots ''start_iso'' (PStr ''2025-08-18T10:30:00'')) ''end_iso''
            = PStr ''2025-08-18T10:30:00''
        \<and> parse_dt example_env ''2025-08-18T10:30:00'' = Some 630
        \<and> ORDER_LABEL \<in> set (missing example_env (dset ready_slots ''start_iso'' (PStr ''2025-08-18T10:30:00'')))
        \<and> ORDER_LABEL \<notin> set REQUIRED)"
proof -
  have a: "''start_iso'' \<in> set REQUIRED \<and> \<not> truthy (dget late_start_slots ''start_iso'')
      \<and> truthy (PStr ''2025-08-18T10:30:00'')"
    by (simp add: REQUIRED_def late_start_slots_def dget_def)
  have p: "parse_dt example_env ''2025-08-18T10:30:00'' = Some 630"
    by (simp add: parse_dt_def example_env_def)
  have b: "dget (dset ready_slots ''start_iso'' (PStr ''2025-08-18T10:30:00'')) ''start_iso''
             = PStr ''2025-08-18T10:30:00''
        \<and> dget (dset ready_slots ''start_iso'' (PStr ''2025-08-18T10:30:00'')) ''end_iso''
             = PStr ''2025-08-18T10:30:00''
        \<and> ''2025-08-18T10:30:00'' \<noteq> [] \<and> ''2025-08-18T10:30:00'' \<noteq> []
        \<and> parse_dt example_env ''2025-08-18T10:30:00'' = Some 630
        \<and> parse_dt example_env ''2025-08-18T10:30:00'' = Some 630 \<and> (630::int) \<le> 630"
    using p by (simp add: ready_slots_def dget_def)
  have c: "dget ready_slots ''start_iso'' = PStr ''2025-08-18T10:00:00''"
    by (simp add: ready_slots_def dget_def)
  from a b c p
    missing_monotone [of "''start_iso''" late_start_slots "PStr ''2025-08-18T10:30:00''" example_env
      "''2025-08-18T10:30:00''" "''2025-08-18T10:30:00''" 630 630]
    missing_monotone [of "''start_iso''" "dset ready_slots ''start_iso'' (PStr ''2025-08-18T10:30:00'')"
      "PStr ''2025-08-18T10:30:00''" example_env
      "''2025-08-18T10:30:00''" "''2025-08-18T10:30:00''" 630 630]
  show ?thesis by blast
qed

section \<open>The availability tool\<close>

lemma service_unassigned: "''service'' \<notin> set CalendarClient_names"
  by (simp add: CalendarClient_names_def)

lemma get_busy_raises: "get_busy e a b z = (Inl (AttributeError NO_SERVICE), [])"
  by (simp add: get_busy_def CalendarClient_getattr_def service_unassigned NO_SERVICE_def Let_def)

text \<open>
  Claim C9. \<^verbatim>\<open>service\<close> is not among the names an instance of \<^verbatim>\<open>CalendarClient\<close> has, so
  \<^verbatim>\<open>get_busy\<close> raises \<^verbatim>\<open>AttributeError\<close> on every input and sends no request; and with
  start, end and timezone all present \<^verbatim>\<open>tool_check_availability\<close> has called the client
  once, returns the reply of its exception branch, which begins with
  \<^verbatim>\<open>Availability check failed:\<close>, and returns no busy list.
\<close>

theorem availability_always_fails:
  "''service'' \<notin> set CalendarClient_names
   \<and> get_busy e a b z = (Inl (AttributeError NO_SERVICE), [])
   \<and> (truthy (dget (slots st) ''start_iso'') \<and> truthy (dget (slots st) ''end_iso'')
        \<and> truthy (dget (slots st) ''timezone'')
      \<longrightarrow> tool_check_availability e st
            = ([Reply (PStr (''Availability check failed: '' @ NO_SERVICE))],
               [CalGetBusy (dget (slots st) ''start_iso'') (dget (slots st) ''end_iso'')
                  (dget (slots st) ''timezone'')]))"
  by (simp add: service_unassigned get_busy_raises tool_check_availability_def Let_def)

theorem availability_always_fails_witness:
  "truthy (dget (slots ready_session) ''start_iso'') \<and> truthy (dget (slots ready_session) ''end_iso'')
   \<and> truthy (dget (slots ready_session) ''timezone'')
   \<and> tool_check_availability example_env ready_session
       = ([Reply (PStr (''Availability check failed: '' @ NO_SERVICE))],
          [CalGetBusy (PStr ''2025-08-18T10:00:00'') (PStr ''2025-08-18T10:30:00'')
             (PStr ''America/Chicago'')])"
  using availability_always_fails [of example_env a b z ready_session]
  by (simp add: ready_session_def ready_slots_def dget_def)

section \<open>The matcher\<close>

text \<open>The two position loops are unfolded by hand in the proofs below.\<close>

declare rx_finditer.simps [simp del] rx_search_from.simps [simp del]




section \<open>Timezone detection\<close>




















section \<open>Heuristic extraction is idempotent\<close>



lemma dset_dset: "dset (dset s k v) k v' = dset s k v'"
  by (induction s) auto












lemma extract_link_again: "extract_link t (extract_link t s) = extract_link t s"
  by (auto simp add: extract_link_def dget_dset dset_dset split: option.splits)













section \<open>The confirm gate\<close>

lemma gate_Nil: "gate []"
  by (simp add: gate_def)

lemma gate_append: "gate (cs @ cs') = (gate cs \<and> gate cs')"
  by (auto simp add: gate_def)

lemma gate_Cons: "gate (c # cs) = (c \<noteq> ToolCreateEvent False \<and> gate cs)"
  by (auto simp add: gate_def)

lemma create_event_calls:
  "create_event e ev = (r, cs) \<Longrightarrow> cs = [CalCreateEvent, EventsInsert (event_body ev)]"
  by (auto simp add: create_event_def Let_def split: api_outcome.splits)

lemma tool_create_event_calls:
  "tool_create_event e st = (r, s', cs) \<Longrightarrow>
   (\<exists>rest. cs = ToolCreateEvent (awaiting_confirm st) # rest \<and> gate rest)
   \<and> (\<forall>ups. r = Inr ups \<longrightarrow> creates ups \<longrightarrow> ToolCreateEvent (awaiting_confirm st) \<in> set cs)"
  by (auto simp add: tool_create_event_def Let_def gate_def creates_def
      dest!: create_event_calls split: if_splits sum.splits prod.splits)

lemma tool_create_event_gate:
  "tool_create_event e st = (r, s', cs) \<Longrightarrow> awaiting_confirm st \<Longrightarrow> gate cs"
  by (auto dest!: tool_create_event_calls simp add: gate_Cons)

lemma get_busy_calls: "get_busy e a b z = (r, cs) \<Longrightarrow> gate cs"
  by (auto simp add: get_busy_def Let_def gate_def split: sum.splits api_outcome.splits)

lemma tool_check_availability_calls:
  "tool_check_availability e st = (ups, cs) \<Longrightarrow> gate cs \<and> \<not> creates ups"
  by (auto simp add: tool_check_availability_def Let_def gate_def creates_def
      dest!: get_busy_calls split: if_splits sum.splits prod.splits)

lemma gm_send_calls: "gm_send e to subject body = (r, cs) \<Longrightarrow> gate cs"
  by (auto simp add: gm_send_def Let_def gate_def split: if_splits sum.splits api_outcome.splits)

lemma tool_send_email_calls:
  "tool_send_email e st yes = (r, cs) \<Longrightarrow> gate cs \<and> (\<forall>ups. r = Inr ups \<longrightarrow> \<not> creates ups)"
  by (auto simp add: tool_send_email_def Let_def gate_Nil creates_def
      dest!: gm_send_calls split: if_splits sum.splits prod.splits option.splits)

lemma created_event_apply_upd:
  "created_event (apply_upd st u) = (case u of CreatedEvent ev \<Rightarrow> Some ev | _ \<Rightarrow> created_event st)"
  by (cases u) simp_all

lemma created_event_state_update:
  "\<not> creates ups \<Longrightarrow> created_event (state_update st ups) = created_event st"
proof (induction ups arbitrary: st)
  case Nil
  then show ?case by (simp add: state_update_def)
next
  case (Cons u ups)
  from Cons.prems have "\<not> creates ups" and "\<forall>ev. u \<noteq> CreatedEvent ev"
    by (auto simp add: creates_def)
  with Cons.IH [of "apply_upd st u"] show ?case
    by (cases u) (simp_all add: state_update_def)
qed

lemma slots_state_update: "slots (state_update st ups) = slots st"
proof (induction ups arbitrary: st)
  case Nil
  then show ?case by (simp add: state_update_def)
next
  case (Cons u ups)
  from Cons.IH [of "apply_upd st u"] show ?case
    by (cases u) (simp_all add: state_update_def)
qed

lemma preextract_only_slots: "preextract_slots st = Inr st1 \<Longrightarrow> st1 = st\<lparr>slots := slots st1\<rparr>"
  by (auto simp add: preextract_slots_def Let_def split: if_splits sum.splits)

lemma missing_or_confirm_plain: "missing_or_confirm e s = Inr ups \<Longrightarrow> \<not> creates ups"
  by (auto simp add: missing_or_confirm_def confirm_updates_def creates_def Let_def
      split: if_splits sum.splits)

lemma confirm_updates_plain: "\<not> creates (confirm_updates v)"
  by (simp add: confirm_updates_def creates_def)

lemma fallback_plain:
  "fallback e st = (r, st') \<Longrightarrow> st' = st\<lparr>slots := slots st'\<rparr> \<and> (\<forall>ups. r = Inr ups \<longrightarrow> \<not> creates ups)"
  by (auto simp add: fallback_def Let_def dest: missing_or_confirm_plain)

lemma dispatch_calls:
  assumes "dispatch e st d = (r, st', cs)"
  shows "gate cs \<and> st' = st\<lparr>slots := slots st'\<rparr>
         \<and> (\<forall>ups. r = Inr ups \<longrightarrow> creates ups \<longrightarrow> ToolCreateEvent True \<in> set cs)"
proof (cases "py_lower (py_or (dget d ''action'') (PStr []))")
  case (Inl err)
  with assms show ?thesis by (auto simp add: dispatch_def gate_Nil)
next
  case (Inr action)
  note a = assms [unfolded dispatch_def Inr sum.case Let_def]
  show ?thesis
  proof (cases "action = ''ask''")
    case True
    with a show ?thesis
      by (auto simp add: gate_Nil creates_def split: sum.splits)
  next
    case n1: False
    show ?thesis
    proof (cases "action = ''set''")
      case True
      with a n1 show ?thesis
        by (auto simp add: gate_Nil dest: missing_or_confirm_plain split: pyval.splits)
    next
      case n2: False
      show ?thesis
      proof (cases "action = ''confirm''")
        case True
        with a n1 n2 show ?thesis
          by (auto simp add: gate_Nil confirm_updates_plain split: sum.splits if_splits)
      next
        case n3: False
        show ?thesis
        proof (cases "action = ''check_availability''")
          case True
          with a n1 n2 n3 show ?thesis
            by (auto dest!: tool_check_availability_calls split: prod.splits)
        next
          case n4: False
          show ?thesis
          proof (cases "action = ''create_event''")
            case c: True
            show ?thesis
            proof (cases "awaiting_confirm st")
              case False
              with c a n1 n2 n3 n4 show ?thesis
                by (auto simp add: gate_Nil confirm_updates_plain split: sum.splits)
            next
              case True
              with c a n1 n2 n3 n4 obtain s' where t: "tool_create_event e st = (r, s', cs)"
                and st': "st' = st\<lparr>slots := s'\<rparr>"
                by (auto split: prod.splits)
              from tool_create_event_gate [OF t True] tool_create_event_calls [OF t] True st'
              show ?thesis by auto
            qed
          next
            case n5: False
            show ?thesis
            proof (cases "action = ''send_email''")
              case True
              with a n1 n2 n3 n4 n5 show ?thesis
                by (auto simp add: gate_Nil dest!: tool_send_email_calls split: sum.splits prod.splits)
            next
              case n6: False
              show ?thesis
              proof (cases "action = ''finish''")
                case True
                with a n1 n2 n3 n4 n5 n6 show ?thesis
                  by (auto simp add: gate_Nil creates_def split: sum.splits)
              next
                case False
                with a n1 n2 n3 n4 n5 n6 show ?thesis
                  by (auto simp add: gate_Nil creates_def)
              qed
            qed
          qed
        qed
      qed
    qed
  qed
qed

lemma decide_and_act_calls:
  assumes "decide_and_act e st = (r, st', cs)"
  shows "gate cs \<and> st' = st\<lparr>slots := slots st'\<rparr>
         \<and> (\<forall>ups. r = Inr ups \<longrightarrow> creates ups \<longrightarrow> ToolCreateEvent True \<in> set cs)"
proof (cases "preextract_slots st")
  case (Inl err)
  with assms show ?thesis by (auto simp add: decide_and_act_def gate_Nil)
next
  case (Inr st1)
  from preextract_only_slots [OF Inr] have st1: "st1 = st\<lparr>slots := slots st1\<rparr>" .
  define st2 where "st2 = st1\<lparr>slots := normalize_times e (slots st1)\<rparr>"
  have st2: "st2 = st\<lparr>slots := slots st2\<rparr>"
    unfolding st2_def by (subst st1) simp
  note a = assms [unfolded decide_and_act_def Inr sum.case Let_def, folded st2_def]
  show ?thesis
  proof (cases "llm_complete e")
    case (Inl err)
    with a st2 show ?thesis by (auto simp add: gate_def)
  next
    case answer: (Inr answer)
    show ?thesis
    proof (cases "decode_decision e (strip answer)")
      case None
      with a answer obtain r0 st0 where f: "fallback e st2 = (r0, st0)"
        and eq: "r = r0" "st' = st0" "cs = [LlmComplete]"
        by (auto split: prod.splits)
      from fallback_plain [OF f] st2 eq have "st' = st\<lparr>slots := slots st'\<rparr>"
        by (metis agent_state.surjective agent_state.update_convs(1))
      with fallback_plain [OF f] eq show ?thesis by (auto simp add: gate_def)
    next
      case (Some v)
      show ?thesis
      proof (cases "\<exists>d. v = PDict d")
        case False
        with a answer Some st2 show ?thesis
          by (cases v) (auto simp add: gate_def)
      next
        case True
        then obtain d where v: "v = PDict d" by blast
        with a answer Some obtain cs0 where d: "dispatch e st2 d = (r, st', cs0)"
          and cs: "cs = LlmComplete # cs0"
          by (auto split: prod.splits)
        from dispatch_calls [OF d] st2 have "st' = st\<lparr>slots := slots st'\<rparr>"
          by (metis agent_state.surjective agent_state.update_convs(1))
        with dispatch_calls [OF d] cs show ?thesis by (auto simp add: gate_Cons)
      qed
    qed
  qed
qed

lemma created_event_say: "created_event (say st r) = created_event st"
  by (simp add: say_def)

lemma created_event_close: "created_event (close_confirm st) = created_event st"
  by (simp add: close_confirm_def)

lemma created_event_preextract: "preextract_slots st = Inr st1 \<Longrightarrow> created_event st1 = created_event st"
  by (drule preextract_only_slots) (metis agent_state.select_convs(4) agent_state.surjective agent_state.update_convs(1))

lemma awaiting_preextract: "preextract_slots st = Inr st1 \<Longrightarrow> awaiting_confirm st1 = awaiting_confirm st"
  by (drule preextract_only_slots) (metis agent_state.select_convs(8) agent_state.surjective agent_state.update_convs(1))

lemma availability_turn_ok:
  assumes "availability_turn e st = (r, st', cs)"
  shows "turn_ok st st' cs"
proof (cases "preextract_slots st")
  case (Inl err)
  with assms show ?thesis by (auto simp add: availability_turn_def turn_ok_def gate_Nil)
next
  case (Inr st1)
  note ce = created_event_preextract [OF Inr]
  note a = assms [unfolded availability_turn_def Inr sum.case Let_def]
  show ?thesis
  proof (cases "missing e (normalize_times e (slots st1)) = []")
    case False
    with a ce show ?thesis
      by (auto simp add: turn_ok_def gate_Nil created_event_say)
  next
    case True
    obtain ups cs0 where t: "tool_check_availability e (st1\<lparr>slots := normalize_times e (slots st1)\<rparr>) = (ups, cs0)"
      by (cases "tool_check_availability e (st1\<lparr>slots := normalize_times e (slots st1)\<rparr>)")
    from tool_check_availability_calls [OF t] have g: "gate cs0" and nc: "\<not> creates ups" by auto
    from True a t have cs: "cs = cs0"
      and st': "created_event st' = created_event (state_update (st1\<lparr>slots := normalize_times e (slots st1)\<rparr>) ups)"
      by (auto simp add: created_event_say split: if_splits)
    from st' created_event_state_update [OF nc] ce have "created_event st' = created_event st" by simp
    with g cs show ?thesis by (simp add: turn_ok_def)
  qed
qed

lemma create_turn_ok:
  assumes run: "create_turn e t st = (r, st', cs)" and aw: "awaiting_confirm st"
  shows "turn_ok st st' cs"
proof -
  obtain r0 s0 cs0 where t: "tool_create_event e st = (r0, s0, cs0)"
    by (cases "tool_create_event e st") auto
  from tool_create_event_gate [OF t aw] have g0: "gate cs0" .
  from tool_create_event_calls [OF t] aw
  have tc: "\<forall>ups. r0 = Inr ups \<longrightarrow> creates ups \<longrightarrow> ToolCreateEvent True \<in> set cs0" by simp
  show ?thesis
  proof (cases r0)
    case (Inl err)
    with run t g0 show ?thesis by (auto simp add: create_turn_def turn_ok_def)
  next
    case (Inr ups)
    define st1 where "st1 = state_update (st\<lparr>slots := s0\<rparr>) ups"
    have c1: "created_event st1 \<noteq> created_event st \<longrightarrow> ToolCreateEvent True \<in> set cs0"
      using tc Inr created_event_state_update [of ups "st\<lparr>slots := s0\<rparr>"]
      by (auto simp add: st1_def)
    note a = run [unfolded create_turn_def t Inr prod.case sum.case Let_def, folded st1_def]
    show ?thesis
    proof (cases "truthy_opt (created_event st1) \<and> \<not> wants_no_email t")
      case True
      obtain r2 cs2 where m: "tool_send_email e st1 True = (r2, cs2)"
        by (cases "tool_send_email e st1 True")
      from tool_send_email_calls [OF m] have g2: "gate cs2"
        and nc: "\<forall>ups. r2 = Inr ups \<longrightarrow> \<not> creates ups" by auto
      from a True m nc have "cs = cs0 @ cs2 \<and> created_event st' = created_event st1"
        by (cases r2) (auto simp add: created_event_say created_event_close created_event_state_update)
      with g0 g2 c1 show ?thesis by (auto simp add: turn_ok_def gate_append)
    next
      case False
      with a have "cs = cs0 \<and> created_event st' = created_event st1"
        by (auto simp add: created_event_say created_event_close split: if_splits)
      with g0 c1 show ?thesis by (auto simp add: turn_ok_def)
    qed
  qed
qed

lemma policy_turn_ok:
  assumes run: "policy_turn e t st = (r, st', cs)"
  shows "turn_ok st st' cs"
proof -
  obtain r0 st0 cs0 where d: "decide_and_act e st = (r0, st0, cs0)"
    by (cases "decide_and_act e st") auto
  from decide_and_act_calls [OF d] have g0: "gate cs0" and s0: "st0 = st\<lparr>slots := slots st0\<rparr>"
    and tc: "\<forall>ups. r0 = Inr ups \<longrightarrow> creates ups \<longrightarrow> ToolCreateEvent True \<in> set cs0" by auto
  from s0 have ce0: "created_event st0 = created_event st"
    by (metis agent_state.select_convs(4) agent_state.surjective agent_state.update_convs(1))
  show ?thesis
  proof (cases r0)
    case (Inl err)
    with run d g0 ce0 show ?thesis
      by (auto simp add: policy_turn_def APP_GRAPH_invoke_def turn_ok_def)
  next
    case (Inr ups)
    define st1 where "st1 = (state_update st0 ups)\<lparr>new_user_message := []\<rparr>"
    have c1: "created_event st1 \<noteq> created_event st \<longrightarrow> ToolCreateEvent True \<in> set cs0"
      using tc Inr created_event_state_update [of ups st0] ce0
      by (auto simp add: st1_def)
    have inv: "APP_GRAPH_invoke e st = (Inr (state_update st0 ups), st0, cs0)"
      using d Inr by (simp add: APP_GRAPH_invoke_def)
    note a = run [unfolded policy_turn_def inv prod.case sum.case Let_def, folded st1_def]
    show ?thesis
    proof (cases "truthy_opt (created_event (state_update st0 ups)) \<and> \<not> wants_no_email t")
      case True
      obtain r2 cs2 where m: "tool_send_email e st1 True = (r2, cs2)"
        by (cases "tool_send_email e st1 True")
      from tool_send_email_calls [OF m] have g2: "gate cs2"
        and nc: "\<forall>ups. r2 = Inr ups \<longrightarrow> \<not> creates ups" by auto
      from a True m nc have "cs = cs0 @ cs2 \<and> created_event st' = created_event st1"
        by (cases r2) (auto simp add: created_event_say created_event_state_update)
      with g0 g2 c1 show ?thesis by (auto simp add: turn_ok_def gate_append)
    next
      case False
      with a have "cs = cs0 \<and> created_event st' = created_event st1"
        by (auto simp add: created_event_say split: if_splits)
      with g0 c1 show ?thesis by (auto simp add: turn_ok_def)
    qed
  qed
qed

lemma agent_chat_ok:
  assumes run: "agent_chat e st message = (r, st', cs)"
  shows "turn_ok st st' cs"
proof -
  define t where "t = strip message"
  define st1 where "st1 = st\<lparr>history := history st @ [(''user'', PStr t)], new_user_message := t\<rparr>"
  have ce1: "created_event st1 = created_event st" and aw1: "awaiting_confirm st1 = awaiting_confirm st"
    by (simp_all add: st1_def)
  note a = run [unfolded agent_chat_def Let_def, folded t_def, folded st1_def]
  have "turn_ok st1 st' cs"
  proof (cases "wants_check_availability t")
    case True
    with a show ?thesis by (simp add: availability_turn_ok)
  next
    case n1: False
    show ?thesis
    proof (cases "awaiting_confirm st1 \<and> is_affirmative t")
      case True
      with a n1 show ?thesis by (simp add: create_turn_ok)
    next
      case n2: False
      show ?thesis
      proof (cases "awaiting_confirm st1 \<and> is_negative t")
        case True
        with a n1 n2 show ?thesis
          by (auto simp add: turn_ok_def gate_Nil created_event_say created_event_close)
      next
        case n3: False
        show ?thesis
        proof (cases "preextract_slots st1")
          case (Inl err)
          with a n1 n2 n3 show ?thesis by (auto simp add: turn_ok_def gate_Nil)
        next
          case (Inr st2)
          note ce2 = created_event_preextract [OF Inr]
          define st3 where "st3 = st2\<lparr>slots := normalize_times e (slots st2)\<rparr>"
          have ce3: "created_event st3 = created_event st1" using ce2 by (simp add: st3_def)
          note b = a [unfolded Inr sum.case, folded st3_def]
          show ?thesis
          proof (cases "\<not> awaiting_confirm st3 \<and> missing e (slots st3) = [] \<and> is_affirmative t")
            case False
            with b n1 n2 n3 have "policy_turn e t st3 = (r, st', cs)" by auto
            from policy_turn_ok [OF this] ce3 show ?thesis by (simp add: turn_ok_def)
          next
            case True
            show ?thesis
            proof (cases "build_confirm_summary e (slots st3)")
              case (Inl err)
              with b n1 n2 n3 True ce3 show ?thesis by (auto simp add: turn_ok_def gate_Nil)
            next
              case (Inr summary)
              with b n1 n2 n3 True
              have "create_turn e t (st3\<lparr>awaiting_confirm := True, confirm_summary := PStr summary\<rparr>)
                      = (r, st', cs)" by auto
              from create_turn_ok [OF this] ce3 show ?thesis by (simp add: turn_ok_def)
            qed
          qed
        qed
      qed
    qed
  qed
  with ce1 show ?thesis by (simp add: turn_ok_def)
qed

lemma run_gate: "gate (snd (run turns st))"
proof (induction turns arbitrary: st)
  case Nil
  then show ?case by (simp add: gate_Nil)
next
  case (Cons a turns)
  obtain e message where a: "a = (e, message)" by (cases a)
  obtain r st' cs where c: "agent_chat e st message = (r, st', cs)"
    by (cases "agent_chat e st message") auto
  from agent_chat_ok [OF c] have "gate cs" by (simp add: turn_ok_def)
  with Cons.IH [of st'] a c show ?case
    by (auto simp add: gate_append split: prod.splits)
qed

lemma gated_create_event:
  assumes "\<not> awaiting_confirm st" and "preextract_slots st = Inr st1"
    and "llm_complete e = Inr answer" and "decode_decision e (strip answer) = Some (PDict decision)"
    and "py_lower (py_or (dget decision ''action'') (PStr [])) = Inr ''create_event''"
    and "build_confirm_summary e (normalize_times e (slots st1)) = Inr summary"
  shows "decide_and_act e st
         = (Inr [AwaitingConfirm True, ConfirmSummary (PStr summary), Reply (PStr summary)],
            st1\<lparr>slots := normalize_times e (slots st1)\<rparr>, [LlmComplete])"
proof -
  from awaiting_preextract [OF assms(2)] assms(1) have "\<not> awaiting_confirm st1" by simp
  with assms show ?thesis
    by (simp add: decide_and_act_def dispatch_def Let_def confirm_updates_def)
qed

text \<open>
  Claim C1. In every conversation, from every session, the Create-Event tool is never run
  on a state whose \<^verbatim>\<open>awaiting_confirm\<close> is false; a turn that changes \<^verbatim>\<open>created_event\<close>
  has run the tool on a state whose \<^verbatim>\<open>awaiting_confirm\<close> was true. In particular, when the
  completion's decision is \<^verbatim>\<open>create_event\<close> while \<^verbatim>\<open>awaiting_confirm\<close> is false, the policy
  step makes no call but the completion, leaves \<^verbatim>\<open>created_event\<close> alone and returns
  \<^verbatim>\<open>awaiting_confirm = True\<close> with the rendered summary as \<^verbatim>\<open>confirm_summary\<close> and as
  reply.
\<close>

theorem confirm_gate:
  "ToolCreateEvent False \<notin> set (snd (run turns st0))
   \<and> (agent_chat e st message = (r, st', cs) \<and> created_event st' \<noteq> created_event st
        \<longrightarrow> ToolCreateEvent True \<in> set cs)
   \<and> (\<not> awaiting_confirm st \<and> preextract_slots st = Inr st1
        \<and> llm_complete e = Inr answer \<and> decode_decision e (strip answer) = Some (PDict decision)
        \<and> py_lower (py_or (dget decision ''action'') (PStr [])) = Inr ''create_event''
        \<and> build_confirm_summary e (normalize_times e (slots st1)) = Inr summary
        \<longrightarrow> decide_and_act e st
            = (Inr [AwaitingConfirm True, ConfirmSummary (PStr summary), Reply (PStr summary)],
               st1\<lparr>slots := normalize_times e (slots st1)\<rparr>, [LlmComplete]))"
proof (intro conjI impI)
  show "ToolCreateEvent False \<notin> set (snd (run turns st0))"
    using run_gate [of turns st0] by (simp add: gate_def)
next
  assume "agent_chat e st message = (r, st', cs) \<and> created_event st' \<noteq> created_event st"
  then show "ToolCreateEvent True \<in> set cs"
    using agent_chat_ok [of e st message r st' cs] by (simp add: turn_ok_def)
next
  assume "\<not> awaiting_confirm st \<and> preextract_slots st = Inr st1
        \<and> llm_complete e = Inr answer \<and> decode_decision e (strip answer) = Some (PDict decision)
        \<and> py_lower (py_or (dget decision ''action'') (PStr [])) = Inr ''create_event''
        \<and> build_confirm_summary e (normalize_times e (slots st1)) = Inr summary"
  then show "decide_and_act e st
            = (Inr [AwaitingConfirm True, ConfirmSummary (PStr summary), Reply (PStr summary)],
               st1\<lparr>slots := normalize_times e (slots st1)\<rparr>, [LlmComplete])"
    using gated_create_event by blast
qed

lemma gate_example_yes:
  "created_event (fst (snd (agent_chat example_env confirming_session ''yes'')))
     \<noteq> created_event confirming_session"
  by code_simp

lemma gate_example_ask:
  "\<not> awaiting_confirm asking_session \<and> preextract_slots asking_session = Inr asking_session
   \<and> llm_complete create_env = Inr ''{create}''
   \<and> decode_decision create_env (strip ''{create}'')
       = Some (PDict [(''action'', PStr ''create_event''), (''args'', PDict [])])
   \<and> py_lower (py_or (dget [(''action'', PStr ''create_event''), (''args'', PDict [])] ''action'')
                 (PStr [])) = Inr ''create_event''
   \<and> normalize_times create_env (slots asking_session) = ready_slots
   \<and> build_confirm_summary create_env ready_slots = Inr ready_summary"
  by code_simp

lemma gate_example_run:
  "ToolCreateEvent True \<in> set (snd (run [(create_env, ''book it''), (example_env, ''yes'')] ready_session))"
  by code_simp

theorem confirm_gate_witness:
  "ToolCreateEvent True \<in> set (snd (run [(create_env, ''book it''), (example_env, ''yes'')] ready_session))
   \<and> ToolCreateEvent False \<notin> set (snd (run [(create_env, ''book it''), (example_env, ''yes'')] ready_session))
   \<and> created_event (fst (snd (agent_chat example_env confirming_session ''yes'')))
       \<noteq> created_event confirming_session
   \<and> ToolCreateEvent True \<in> set (snd (snd (agent_chat example_env confirming_session ''yes'')))
   \<and> \<not> awaiting_confirm asking_session
   \<and> decide_and_act create_env asking_session
       = (Inr [AwaitingConfirm True, ConfirmSummary (PStr ready_summary), Reply (PStr ready_summary)],
          asking_session, [LlmComplete])"
proof -
  have s: "asking_session\<lparr>slots := ready_slots\<rparr> = asking_session"
    by (simp add: asking_session_def ready_session_def)
  have p: "agent_chat example_env confirming_session ''yes''
           = (fst (agent_chat example_env confirming_session ''yes''),
              fst (snd (agent_chat example_env confirming_session ''yes'')),
              snd (snd (agent_chat example_env confirming_session ''yes'')))"
    by simp
  from gate_example_yes gate_example_ask gate_example_run s p
    confirm_gate [of "[(create_env, ''book it''), (example_env, ''yes'')]" ready_session
      example_env confirming_session "''yes''"
      "fst (agent_chat example_env confirming_session ''yes'')"
      "fst (snd (agent_chat example_env confirming_session ''yes''))"
      "snd (snd (agent_chat example_env confirming_session ''yes''))"]
    confirm_gate [of "[]" ready_session create_env asking_session "''yes''" r st' cs asking_session
      "''{create}''" "[(''action'', PStr ''create_event''), (''args'', PDict [])]" ready_summary]
  show ?thesis by simp
qed

section \<open>A failed creation is reported as created\<close>

lemma created_link_failed: "created_link (failed_result m) = PNone"
  by (simp add: created_link_def failed_result_def py_or_def dget_def Let_def)

lemma tool_create_event_failed:
  assumes "missing e (slots st) = []" and "event_description e (slots st) = Inr desc"
    and "EventIn e (dget (slots st) ''title'') (dget (slots st) ''start_iso'')
           (dget (slots st) ''end_iso'') (dget (slots st) ''timezone'')
           (py_or (dget (slots st) ''attendees'') (PList [])) (dget (slots st) ''location'')
           (py_or desc PNone) (dget (slots st) ''recurrence'') = Inr ev"
    and "events_insert e (event_body ev) = HttpError m"
  shows "tool_create_event e st
         = (Inr [CreatedEvent (failed_result m), Reply (PStr ''Event created.'')], slots st,
            [ToolCreateEvent (awaiting_confirm st), CalCreateEvent, EventsInsert (event_body ev)])"
  using assms created_link_failed [of m]
  by (simp add: tool_create_event_def create_event_def Let_def failed_result_def)

lemma missing_present: "missing e s = [] \<Longrightarrow> k \<in> set REQUIRED \<Longrightarrow> truthy (dget s k)"
proof -
  assume m: "missing e s = []" and k: "k \<in> set REQUIRED"
  have "length (absent s) \<le> length (missing e s)" by (rule missing_ge)
  with m have "absent s = []" by simp
  with k show ?thesis by (auto simp add: absent_def filter_empty_conv)
qed

lemma truthy_present: "truthy (dget s k) \<Longrightarrow> \<exists>v. dreq s k = Inr v"
  by (auto simp add: dget_def dreq_def split: option.splits)

lemma gm_send_first: "gm_send e to subject body = (r, cs) \<Longrightarrow> GmSend \<in> set cs"
  by (auto simp add: gm_send_def Let_def split: if_splits sum.splits api_outcome.splits)

lemma tool_send_email_sends:
  assumes ev: "created_event st = Some ev" "truthy ev" and atts: "truthy (dget (slots st) ''attendees'')"
    and miss: "missing e (slots st) = []" and run: "tool_send_email e st True = (r, cs)"
  shows "GmSend \<in> set cs"
proof -
  from miss have "truthy (dget (slots st) ''title'')" "truthy (dget (slots st) ''start_iso'')"
    "truthy (dget (slots st) ''end_iso'')" "truthy (dget (slots st) ''timezone'')"
    by (simp_all add: missing_present REQUIRED_def)
  then obtain a b c d where "dreq (slots st) ''title'' = Inr a" "dreq (slots st) ''start_iso'' = Inr b"
    "dreq (slots st) ''end_iso'' = Inr c" "dreq (slots st) ''timezone'' = Inr d"
    using truthy_present by metis
  with ev atts run show ?thesis
    by (auto simp add: tool_send_email_def Let_def py_or_def dest!: gm_send_first split: prod.splits sum.splits)
qed

lemma create_turn_failed:
  assumes t: "tool_create_event e st = (Inr [CreatedEvent ev, Reply (PStr ''Event created.'')], slots st, cs0)"
    and ev: "truthy ev"
    and run: "create_turn e t st = (r, st', cs)"
  shows "created_event st' = Some ev
         \<and> (\<forall>out. r = Inr out \<longrightarrow> out_done out \<and> (\<exists>dt. out_data out = Some dt \<and> map_of dt ''event'' = Some ev))
         \<and> (wants_no_email t \<longrightarrow> (\<exists>out. r = Inr out \<and> out_reply out = ''Event created. (Skipped email.)''
                \<and> out_data out = Some [(''event'', ev)]) \<and> cs = cs0)
         \<and> (\<not> wants_no_email t \<longrightarrow>
               (\<exists>r2 cs2. tool_send_email e (state_update st [CreatedEvent ev, Reply (PStr ''Event created.'')]) True = (r2, cs2)
                  \<and> cs = cs0 @ cs2))"
proof -
  define st1 where "st1 = state_update st [CreatedEvent ev, Reply (PStr ''Event created.'')]"
  have ce1: "created_event st1 = Some ev" and sl1: "slots st1 = slots st"
    by (simp_all add: st1_def state_update_def)
  have same: "st\<lparr>slots := slots st\<rparr> = st" by simp
  note a = run [unfolded create_turn_def t prod.case sum.case Let_def same, folded st1_def]
  show ?thesis
  proof (cases "wants_no_email t")
    case True
    with a ce1 ev show ?thesis
      by (auto simp add: truthy_opt_def ChatOut_def entry_def created_event_say created_event_close)
  next
    case False
    obtain r2 cs2 where m: "tool_send_email e st1 True = (r2, cs2)"
      by (cases "tool_send_email e st1 True")
    from tool_send_email_calls [OF m] have nc: "\<forall>ups. r2 = Inr ups \<longrightarrow> \<not> creates ups" by simp
    show ?thesis
    proof (cases r2)
      case (Inl err)
      with a False m ce1 ev show ?thesis
        by (auto simp add: truthy_opt_def st1_def)
    next
      case (Inr ups2)
      with nc have "created_event (state_update st1 ups2) = created_event st1"
        by (simp add: created_event_state_update)
      with a False m ce1 ev Inr show ?thesis
        by (auto simp add: truthy_opt_def ChatOut_def entry_def created_event_say created_event_close
            st1_def split: pyval.splits)
    qed
  qed
qed

lemma tool_create_event_created:
  assumes "missing e (slots st) = []" and "event_description e (slots st) = Inr desc"
    and "EventIn e (dget (slots st) ''title'') (dget (slots st) ''start_iso'')
           (dget (slots st) ''end_iso'') (dget (slots st) ''timezone'')
           (py_or (dget (slots st) ''attendees'') (PList [])) (dget (slots st) ''location'')
           (py_or desc PNone) (dget (slots st) ''recurrence'') = Inr ev"
    and "create_event e ev = (Inr created, cs0)"
  shows "\<exists>s'. tool_create_event e st
              = (Inr [CreatedEvent created, Reply (PStr ''Event created.'')], s',
                 ToolCreateEvent (awaiting_confirm st) # cs0)"
  using assms by (simp add: tool_create_event_def Let_def)

text \<open>
  Claim C10. When the slots pass validation and the event is built, the tool stores
  whatever result the calendar client returns as \<^verbatim>\<open>created_event\<close> and replies
  \<^verbatim>\<open>Event created.\<close>; when the API raises \<^verbatim>\<open>HttpError\<close> that result is
  \<^verbatim>\<open>{ok: False, error: ...}\<close>. A confirming turn with an affirmative message then stores this
  failed result in the session, reports \<^verbatim>\<open>done = True\<close> with the failed result as
  \<^verbatim>\<open>data.event\<close> whenever it answers, and runs the mail client when the message does not
  ask to skip the mail and there are attendees.
\<close>

theorem failed_creation_reported_done:
  assumes "missing e (slots st) = []" and "event_description e (slots st) = Inr desc"
    and "EventIn e (dget (slots st) ''title'') (dget (slots st) ''start_iso'')
           (dget (slots st) ''end_iso'') (dget (slots st) ''timezone'')
           (py_or (dget (slots st) ''attendees'') (PList [])) (dget (slots st) ''location'')
           (py_or desc PNone) (dget (slots st) ''recurrence'') = Inr ev"
  shows "(create_event e ev = (Inr created, cs0) \<longrightarrow>
            (\<exists>s'. tool_create_event e st
                   = (Inr [CreatedEvent created, Reply (PStr ''Event created.'')], s',
                      ToolCreateEvent (awaiting_confirm st) # cs0)))
         \<and> (events_insert e (event_body ev) = HttpError m \<longrightarrow>
              tool_create_event e st
                = (Inr [CreatedEvent (failed_result m), Reply (PStr ''Event created.'')], slots st,
                   [ToolCreateEvent (awaiting_confirm st), CalCreateEvent, EventsInsert (event_body ev)]))
         \<and> (events_insert e (event_body ev) = HttpError m \<and> awaiting_confirm st
              \<and> is_affirmative (strip message) \<and> \<not> wants_check_availability (strip message)
              \<and> agent_chat e st message = (r, st', cs) \<longrightarrow>
              created_event st' = Some (failed_result m)
              \<and> (\<forall>out. r = Inr out \<longrightarrow> out_done out
                     \<and> (\<exists>dt. out_data out = Some dt \<and> map_of dt ''event'' = Some (failed_result m)))
              \<and> (\<not> wants_no_email (strip message) \<and> truthy (dget (slots st) ''attendees'')
                    \<longrightarrow> GmSend \<in> set cs)
              \<and> (wants_no_email (strip message)
                    \<longrightarrow> (\<exists>out. r = Inr out \<and> out_reply out = ''Event created. (Skipped email.)'')))"
proof -
  have a: "create_event e ev = (Inr created, cs0) \<longrightarrow>
            (\<exists>s'. tool_create_event e st
                   = (Inr [CreatedEvent created, Reply (PStr ''Event created.'')], s',
                      ToolCreateEvent (awaiting_confirm st) # cs0))"
    using assms tool_create_event_created by blast
  have b: "events_insert e (event_body ev) = HttpError m \<longrightarrow>
              tool_create_event e st
                = (Inr [CreatedEvent (failed_result m), Reply (PStr ''Event created.'')], slots st,
                   [ToolCreateEvent (awaiting_confirm st), CalCreateEvent, EventsInsert (event_body ev)])"
    using assms tool_create_event_failed by blast
  have c: "created_event st' = Some (failed_result m)
              \<and> (\<forall>out. r = Inr out \<longrightarrow> out_done out
                     \<and> (\<exists>dt. out_data out = Some dt \<and> map_of dt ''event'' = Some (failed_result m)))
              \<and> (\<not> wants_no_email (strip message) \<and> truthy (dget (slots st) ''attendees'')
                    \<longrightarrow> GmSend \<in> set cs)
              \<and> (wants_no_email (strip message)
                    \<longrightarrow> (\<exists>out. r = Inr out \<and> out_reply out = ''Event created. (Skipped email.)''))"
    if h: "events_insert e (event_body ev) = HttpError m \<and> awaiting_confirm st
              \<and> is_affirmative (strip message) \<and> \<not> wants_check_availability (strip message)
              \<and> agent_chat e st message = (r, st', cs)"
  proof -
    define t where "t = strip message"
    define st1 where "st1 = st\<lparr>history := history st @ [(''user'', PStr t)], new_user_message := t\<rparr>"
    have sl: "slots st1 = slots st" and aw: "awaiting_confirm st1 = awaiting_confirm st"
      by (simp_all add: st1_def)
    from h have run: "create_turn e t st1 = (r, st', cs)"
      by (auto simp add: agent_chat_def Let_def t_def st1_def)
    from h assms have tool: "tool_create_event e st1
        = (Inr [CreatedEvent (failed_result m), Reply (PStr ''Event created.'')], slots st1,
           [ToolCreateEvent (awaiting_confirm st1), CalCreateEvent, EventsInsert (event_body ev)])"
      using tool_create_event_failed [of e st1 desc ev m] sl by simp
    have tr: "truthy (failed_result m)" by (simp add: failed_result_def)
    note ct = create_turn_failed [OF tool tr run]
    have mail: "GmSend \<in> set cs"
      if n: "\<not> wants_no_email (strip message) \<and> truthy (dget (slots st) ''attendees'')"
    proof -
      define st2 where "st2 = state_update st1 [CreatedEvent (failed_result m), Reply (PStr ''Event created.'')]"
      from ct n obtain r2 cs2 where m: "tool_send_email e st2 True = (r2, cs2)"
        and cs: "cs = [ToolCreateEvent (awaiting_confirm st1), CalCreateEvent,
                       EventsInsert (event_body ev)] @ cs2"
        by (auto simp add: t_def st2_def)
      have "created_event st2 = Some (failed_result m)" "slots st2 = slots st"
        by (simp_all add: st2_def state_update_def sl)
      with tool_send_email_sends [OF _ tr _ _ m] n assms(1) have "GmSend \<in> set cs2" by simp
      with cs show ?thesis by simp
    qed
    from ct mail show ?thesis by (auto simp add: t_def)
  qed
  from a b c show ?thesis by blast
qed

lemma failed_example_slots:
  "missing failing_env (slots confirming_session) = []
   \<and> event_description failing_env (slots confirming_session) = Inr (PStr [])
   \<and> EventIn failing_env (dget (slots confirming_session) ''title'')
         (dget (slots confirming_session) ''start_iso'') (dget (slots confirming_session) ''end_iso'')
         (dget (slots confirming_session) ''timezone'')
         (py_or (dget (slots confirming_session) ''attendees'') (PList []))
         (dget (slots confirming_session) ''location'') (py_or (PStr []) PNone)
         (dget (slots confirming_session) ''recurrence'') = Inr ready_event
   \<and> events_insert failing_env (event_body ready_event) = HttpError ''HttpError 403''
   \<and> awaiting_confirm confirming_session
   \<and> truthy (dget (slots confirming_session) ''attendees'')"
  by code_simp

lemma confirming_slots: "slots confirming_session = ready_slots"
  by (simp add: confirming_session_def ready_session_def)

lemma failed_example_message:
  "is_affirmative (strip ''yes'') \<and> \<not> wants_check_availability (strip ''yes'')
   \<and> \<not> wants_no_email (strip ''yes'')"
  by code_simp

lemma failed_example_answer:
  "fst (agent_chat failing_env confirming_session ''yes'')
     = Inr \<lparr>out_reply = ''Event created and email sent.'', out_slots = ready_slots, out_done = True,
            out_data = Some [(''event'', failed_result ''HttpError 403''),
                             (''email'', PDict [(''ok'', PBool True), (''data'', PDict [(''id'', PStr ''m1'')])])]\<rparr>"
  by code_simp

theorem failed_creation_reported_done_witness:
  "tool_create_event failing_env confirming_session
     = (Inr [CreatedEvent (failed_result ''HttpError 403''), Reply (PStr ''Event created.'')],
        ready_slots, [ToolCreateEvent True, CalCreateEvent, EventsInsert (event_body ready_event)])
   \<and> created_event (fst (snd (agent_chat failing_env confirming_session ''yes'')))
       = Some (failed_result ''HttpError 403'')
   \<and> (\<exists>out. fst (agent_chat failing_env confirming_session ''yes'') = Inr out \<and> out_done out
          \<and> (\<exists>dt. out_data out = Some dt \<and> map_of dt ''event'' = Some (failed_result ''HttpError 403'')))
   \<and> GmSend \<in> set (snd (snd (agent_chat failing_env confirming_session ''yes'')))"
proof -
  have p: "agent_chat failing_env confirming_session ''yes''
           = (fst (agent_chat failing_env confirming_session ''yes''),
              fst (snd (agent_chat failing_env confirming_session ''yes'')),
              snd (snd (agent_chat failing_env confirming_session ''yes'')))"
    by simp
  from failed_example_slots have h1: "missing failing_env (slots confirming_session) = []"
    and h2: "event_description failing_env (slots confirming_session) = Inr (PStr [])"
    and h3: "EventIn failing_env (dget (slots confirming_session) ''title'')
         (dget (slots confirming_session) ''start_iso'') (dget (slots confirming_session) ''end_iso'')
         (dget (slots confirming_session) ''timezone'')
         (py_or (dget (slots confirming_session) ''attendees'') (PList []))
         (dget (slots confirming_session) ''location'') (py_or (PStr []) PNone)
         (dget (slots confirming_session) ''recurrence'') = Inr ready_event"
    by blast+
  note th = failed_creation_reported_done [OF h1 h2 h3, of created cs0 "''HttpError 403''" "''yes''"
      "fst (agent_chat failing_env confirming_session ''yes'')"
      "fst (snd (agent_chat failing_env confirming_session ''yes''))"
      "snd (snd (agent_chat failing_env confirming_session ''yes''))"]
  from th failed_example_slots failed_example_message failed_example_answer p confirming_slots
  show ?thesis by simp
qed

section \<open>Skipping the mail on confirmation\<close>

lemma create_event_result:
  "create_event e ev = (Inr created, cs) \<Longrightarrow>
   truthy created \<and> cs = [CalCreateEvent, EventsInsert (event_body ev)]"
  by (auto simp add: create_event_def Let_def split: api_outcome.splits)

lemma create_turn_skips_email:
  assumes t: "tool_create_event e st = (Inr [CreatedEvent ev, Reply (PStr ''Event created.'')], s', cs0)"
    and ev: "truthy ev" and skip: "wants_no_email t"
  shows "create_turn e t st
         = (Inr \<lparr>out_reply = ''Event created. (Skipped email.)'', out_slots = s', out_done = True,
                 out_data = Some [(''event'', ev)]\<rparr>,
            say (close_confirm (state_update (st\<lparr>slots := s'\<rparr>)
                   [CreatedEvent ev, Reply (PStr ''Event created.'')]))
                (PStr ''Event created. (Skipped email.)''),
            cs0)"
proof -
  define st1 where "st1 = state_update (st\<lparr>slots := s'\<rparr>) [CreatedEvent ev, Reply (PStr ''Event created.'')]"
  have ce1: "created_event st1 = Some ev" and sl1: "slots st1 = s'"
    by (simp_all add: st1_def state_update_def)
  have "slots (say (close_confirm st1) (PStr ''Event created. (Skipped email.)'')) = s'"
    using sl1 by (simp add: say_def close_confirm_def)
  with ce1 ev skip show ?thesis
    unfolding create_turn_def t prod.case sum.case Let_def st1_def [symmetric]
    by (simp add: truthy_opt_def ChatOut_def entry_def)
qed

text \<open>
  Claim C4, amended. If the session is awaiting confirmation and the message of the turn
  is affirmative, is not an availability request and asks to skip the mail, and the slots
  validate, the event is built and the calendar client returns a result, then the turn
  runs the Create-Event tool, stores the result, answers
  \<^verbatim>\<open>Event created. (Skipped email.)\<close> with \<^verbatim>\<open>done = True\<close> and a \<^verbatim>\<open>data\<close> that holds the
  event and no \<^verbatim>\<open>email\<close> key, and never calls the mail client.
\<close>

theorem skip_email_on_confirmation:
  assumes "awaiting_confirm st" and "is_affirmative (strip message)"
    and "\<not> wants_check_availability (strip message)" and "wants_no_email (strip message)"
    and "missing e (slots st) = []" and "event_description e (slots st) = Inr desc"
    and "EventIn e (dget (slots st) ''title'') (dget (slots st) ''start_iso'')
           (dget (slots st) ''end_iso'') (dget (slots st) ''timezone'')
           (py_or (dget (slots st) ''attendees'') (PList [])) (dget (slots st) ''location'')
           (py_or desc PNone) (dget (slots st) ''recurrence'') = Inr ev"
    and "create_event e ev = (Inr created, cs0)"
  shows "\<exists>st'. agent_chat e st message
               = (Inr \<lparr>out_reply = ''Event created. (Skipped email.)'', out_slots = slots st',
                       out_done = True, out_data = Some [(''event'', created)]\<rparr>,
                  st', [ToolCreateEvent True, CalCreateEvent, EventsInsert (event_body ev)])
          \<and> created_event st' = Some created
          \<and> map_of [(''event'', created)] ''email'' = None"
proof -
  define t where "t = strip message"
  define st1 where "st1 = st\<lparr>history := history st @ [(''user'', PStr t)], new_user_message := t\<rparr>"
  have sl: "slots st1 = slots st" and aw: "awaiting_confirm st1" using assms(1)
    by (simp_all add: st1_def)
  from assms have chat: "agent_chat e st message = create_turn e t st1"
    by (simp add: agent_chat_def Let_def t_def st1_def)
  from create_event_result [OF assms(8)] have tr: "truthy created"
    and cs0: "cs0 = [CalCreateEvent, EventsInsert (event_body ev)]" by simp_all
  from tool_create_event_created [of e st1 desc ev created cs0] assms sl aw
  obtain s' where tool: "tool_create_event e st1
      = (Inr [CreatedEvent created, Reply (PStr ''Event created.'')], s', ToolCreateEvent True # cs0)"
    by auto
  define st' where "st' = say (close_confirm (state_update (st1\<lparr>slots := s'\<rparr>)
                   [CreatedEvent created, Reply (PStr ''Event created.'')]))
                (PStr ''Event created. (Skipped email.)'')"
  have "slots st' = s'" "created_event st' = Some created"
    by (simp_all add: st'_def say_def close_confirm_def state_update_def)
  with create_turn_skips_email [OF tool tr, of t] assms(4) chat cs0 show ?thesis
    by (intro exI [of _ st']) (simp add: t_def st'_def)
qed

text \<open>
  Claim C4 as stated fails: the message \<^verbatim>\<open>no email please\<close> holds the phrase, but it
  matches \<^verbatim>\<open>NO_RE\<close> and not \<^verbatim>\<open>YES_RE\<close>, so on a session that awaits confirmation the turn
  takes the negative branch: nothing is created and the reply asks what to change.
\<close>

theorem no_email_please_cancels:
  "awaiting_confirm confirming_session
   \<and> contains ''no email please'' ''no email please''
   \<and> \<not> is_affirmative (strip ''no email please'') \<and> is_negative (strip ''no email please'')
   \<and> fst (agent_chat example_env confirming_session ''no email please'')
       = Inr \<lparr>out_reply = ''Okay, what would you like to change?'', out_slots = ready_slots,
              out_done = False, out_data = None\<rparr>
   \<and> created_event (fst (snd (agent_chat example_env confirming_session ''no email please''))) = None
   \<and> snd (snd (agent_chat example_env confirming_session ''no email please'')) = []"
  by code_simp

lemma skip_example_message:
  "is_affirmative (strip ''yes, no email please'')
   \<and> \<not> wants_check_availability (strip ''yes, no email please'')
   \<and> wants_no_email (strip ''yes, no email please'')"
  by code_simp

lemma skip_example_slots:
  "missing example_env (slots confirming_session) = []
   \<and> event_description example_env (slots confirming_session) = Inr (PStr [])
   \<and> EventIn example_env (dget (slots confirming_session) ''title'')
         (dget (slots confirming_session) ''start_iso'') (dget (slots confirming_session) ''end_iso'')
         (dget (slots confirming_session) ''timezone'')
         (py_or (dget (slots confirming_session) ''attendees'') (PList []))
         (dget (slots confirming_session) ''location'') (py_or (PStr []) PNone)
         (dget (slots confirming_session) ''recurrence'') = Inr ready_event
   \<and> create_event example_env ready_event
       = (Inr (PDict [(''ok'', PBool True),
                      (''data'', PDict [(''id'', PStr ''ev1''), (''link'', PStr ''https://cal/ev1'')])]),
          [CalCreateEvent, EventsInsert (event_body ready_event)])
   \<and> awaiting_confirm confirming_session"
  by code_simp

theorem skip_email_on_confirmation_witness:
  "\<exists>st'. agent_chat example_env confirming_session ''yes, no email please''
          = (Inr \<lparr>out_reply = ''Event created. (Skipped email.)'', out_slots = slots st',
                  out_done = True,
                  out_data = Some [(''event'',
                     PDict [(''ok'', PBool True),
                            (''data'', PDict [(''id'', PStr ''ev1''), (''link'', PStr ''https://cal/ev1'')])])]\<rparr>,
             st', [ToolCreateEvent True, CalCreateEvent, EventsInsert (event_body ready_event)])"
proof -
  from skip_example_slots have h1: "missing example_env (slots confirming_session) = []"
    and h2: "event_description example_env (slots confirming_session) = Inr (PStr [])"
    and h3: "EventIn example_env (dget (slots confirming_session) ''title'')
         (dget (slots confirming_session) ''start_iso'') (dget (slots confirming_session) ''end_iso'')
         (dget (slots confirming_session) ''timezone'')
         (py_or (dget (slots confirming_session) ''attendees'') (PList []))
         (dget (slots confirming_session) ''location'') (py_or (PStr []) PNone)
         (dget (slots confirming_session) ''recurrence'') = Inr ready_event"
    and h4: "create_event example_env ready_event
       = (Inr (PDict [(''ok'', PBool True),
                      (''data'', PDict [(''id'', PStr ''ev1''), (''link'', PStr ''https://cal/ev1'')])]),
          [CalCreateEvent, EventsInsert (event_body ready_event)])"
    and h0: "awaiting_confirm confirming_session"
    by blast+
  from skip_example_message have m1: "is_affirmative (strip ''yes, no email please'')"
    and m2: "\<not> wants_check_availability (strip ''yes, no email please'')"
    and m3: "wants_no_email (strip ''yes, no email please'')" by blast+
  from skip_email_on_confirmation [OF h0 m1 m2 m3 h1 h2 h3 h4] show ?thesis by blast
qed

section \<open>Availability requests\<close>

lemma normalize_one_other: "k' \<noteq> k \<Longrightarrow> dget (normalize_one e k s) k' = dget s k'"
  by (simp add: normalize_one_def dget_dset split: pyval.splits option.splits)









section \<open>Fallback on an unparsable completion\<close>




























section \<open>The done flag\<close>

lemma tool_runs_Nil: "\<not> tool_runs []"
  by (simp add: tool_runs_def)

lemma tool_runs_append: "tool_runs (cs @ cs') = (tool_runs cs \<or> tool_runs cs')"
  by (auto simp add: tool_runs_def)

lemma tool_runs_Cons: "tool_runs (c # cs) = ((\<exists>b. c = ToolCreateEvent b) \<or> tool_runs cs)"
  by (cases c) (auto simp add: tool_runs_def)

lemma get_busy_quiet: "get_busy e a b z = (r, cs) \<Longrightarrow> \<not> tool_runs cs"
  by (auto simp add: get_busy_def Let_def tool_runs_def split: sum.splits api_outcome.splits)

lemma tool_check_availability_quiet:
  "tool_check_availability e st = (ups, cs) \<Longrightarrow> \<not> tool_runs cs"
  by (auto simp add: tool_check_availability_def Let_def tool_runs_Nil tool_runs_Cons
      dest!: get_busy_quiet split: if_splits sum.splits prod.splits)

lemma gm_send_quiet: "gm_send e to subject body = (r, cs) \<Longrightarrow> \<not> tool_runs cs"
  by (auto simp add: gm_send_def Let_def tool_runs_def split: if_splits sum.splits api_outcome.splits)

lemma tool_send_email_quiet: "tool_send_email e st yes = (r, cs) \<Longrightarrow> \<not> tool_runs cs"
  by (auto simp add: tool_send_email_def Let_def tool_runs_Nil tool_runs_Cons
      dest!: gm_send_quiet split: if_splits sum.splits prod.splits option.splits)

lemma dispatch_quiet:
  assumes "dispatch e st d = (r, st', cs)" and idle: "\<not> awaiting_confirm st"
  shows "\<not> tool_runs cs"
proof (cases "py_lower (py_or (dget d ''action'') (PStr []))")
  case (Inl err)
  with assms show ?thesis by (auto simp add: dispatch_def tool_runs_Nil)
next
  case (Inr action)
  note a = assms(1) [unfolded dispatch_def Inr sum.case Let_def]
  show ?thesis
  proof (cases "action = ''ask''")
    case True
    with a show ?thesis
      by (auto simp add: tool_runs_Nil split: sum.splits)
  next
    case n1: False
    show ?thesis
    proof (cases "action = ''set''")
      case True
      with a n1 show ?thesis
        by (auto simp add: tool_runs_Nil split: pyval.splits)
    next
      case n2: False
      show ?thesis
      proof (cases "action = ''confirm''")
        case True
        with a n1 n2 show ?thesis
          by (auto simp add: tool_runs_Nil split: sum.splits if_splits)
      next
        case n3: False
        show ?thesis
        proof (cases "action = ''check_availability''")
          case True
          with a n1 n2 n3 show ?thesis
            by (auto dest!: tool_check_availability_quiet split: prod.splits)
        next
          case n4: False
          show ?thesis
          proof (cases "action = ''create_event''")
            case True
            with idle a n1 n2 n3 n4 show ?thesis
              by (auto simp add: tool_runs_Nil split: sum.splits)
          next
            case n5: False
            show ?thesis
            proof (cases "action = ''send_email''")
              case True
              with a n1 n2 n3 n4 n5 show ?thesis
                by (auto simp add: tool_runs_Nil dest!: tool_send_email_quiet split: sum.splits prod.splits)
            next
              case n6: False
              show ?thesis
              proof (cases "action = ''finish''")
                case True
                with a n1 n2 n3 n4 n5 n6 show ?thesis
                  by (auto simp add: tool_runs_Nil split: sum.splits)
              next
                case False
                with a n1 n2 n3 n4 n5 n6 show ?thesis
                  by (auto simp add: tool_runs_Nil)
              qed
            qed
          qed
        qed
      qed
    qed
  qed
qed

lemma decide_and_act_quiet:
  assumes "decide_and_act e st = (r, st', cs)" and idle: "\<not> awaiting_confirm st"
  shows "\<not> tool_runs cs"
proof (cases "preextract_slots st")
  case (Inl err)
  with assms show ?thesis by (auto simp add: decide_and_act_def tool_runs_Nil)
next
  case (Inr st1)
  define st2 where "st2 = st1\<lparr>slots := normalize_times e (slots st1)\<rparr>"
  from awaiting_preextract [OF Inr] idle have idle2: "\<not> awaiting_confirm st2"
    by (simp add: st2_def)
  note a = assms(1) [unfolded decide_and_act_def Inr sum.case Let_def, folded st2_def]
  show ?thesis
  proof (cases "llm_complete e")
    case (Inl err)
    with a show ?thesis by (auto simp add: tool_runs_def)
  next
    case answer: (Inr answer)
    show ?thesis
    proof (cases "decode_decision e (strip answer)")
      case None
      with a answer show ?thesis
        by (auto simp add: tool_runs_def split: prod.splits)
    next
      case (Some v)
      show ?thesis
      proof (cases "\<exists>d. v = PDict d")
        case False
        with a answer Some show ?thesis
          by (cases v) (auto simp add: tool_runs_def)
      next
        case True
        then obtain d where v: "v = PDict d" by blast
        with a answer Some obtain cs0 where d: "dispatch e st2 d = (r, st', cs0)"
          and cs: "cs = LlmComplete # cs0"
          by (auto split: prod.splits)
        from dispatch_quiet [OF d idle2] cs show ?thesis by (simp add: tool_runs_Cons)
      qed
    qed
  qed
qed

lemma ChatOut_done: "ChatOut r s d dt = Inr out \<Longrightarrow> out_done out = d"
  by (auto simp add: ChatOut_def split: pyval.splits)

lemma policy_turn_done:
  assumes "policy_turn e t st = (Inr out, st', cs)"
  shows "out_done out = truthy_opt (created_event st')"
  using assms
  by (auto simp add: policy_turn_def Let_def dest!: ChatOut_done
      split: prod.splits sum.splits if_splits)

lemma policy_turn_quiet:
  assumes "policy_turn e t st = (r, st', cs)" and idle: "\<not> awaiting_confirm st"
  shows "\<not> tool_runs cs"
proof -
  obtain r0 st0 cs0 where d: "decide_and_act e st = (r0, st0, cs0)"
    by (cases "decide_and_act e st") auto
  from decide_and_act_quiet [OF d idle] have q: "\<not> tool_runs cs0" .
  with assms(1) d show ?thesis
    by (auto simp add: policy_turn_def APP_GRAPH_invoke_def Let_def tool_runs_append
        dest!: tool_send_email_quiet split: prod.splits sum.splits if_splits)
qed

lemma booked_session_turn:
  "\<not> wants_check_availability (strip ''thanks'')
   \<and> \<not> is_affirmative (strip ''thanks'')
   \<and> \<not> awaiting_confirm booked_session
   \<and> created_event booked_session
       = Some (PDict [(''ok'', PBool True),
                      (''data'', PDict [(''id'', PStr ''ev1''), (''link'', PStr ''https://cal/ev1'')])])
   \<and> (case fst (agent_chat ask_env booked_session ''thanks'') of Inl err \<Rightarrow> False | Inr out \<Rightarrow> True)"
  by code_simp

text \<open>
  Claim C2. The response field \<^verbatim>\<open>done\<close> is meant to be true exactly when a Create-Event
  action succeeded in this turn. The policy step does not compute it that way: it ends
  with \<^verbatim>\<open>done = bool(state.get("created_event"))\<close>, read from the session, and nothing but
  \<^verbatim>\<open>_new_session\<close> ever clears \<^verbatim>\<open>created_event\<close>. In every turn that answers and whose
  message is neither an availability request nor affirmative, met by a session that is not
  awaiting confirmation, the Create-Event tool is not run and \<^verbatim>\<open>created_event\<close> is left as
  it was, and \<^verbatim>\<open>done\<close> is the truth value of the \<^verbatim>\<open>created_event\<close> the session already
  held. So once an event has been created, each such later turn answers \<^verbatim>\<open>done=true\<close>
  although no create ran in it.
\<close>

theorem done_reads_recorded_event:
  assumes run: "agent_chat e st message = (Inr out, st', cs)"
    and n1: "\<not> wants_check_availability (strip message)"
    and n2: "\<not> is_affirmative (strip message)"
    and idle: "\<not> awaiting_confirm st"
  shows "\<not> tool_runs cs \<and> created_event st' = created_event st
         \<and> out_done out = truthy_opt (created_event st)"
proof -
  define t where "t = strip message"
  define st1 where "st1 = st\<lparr>history := history st @ [(''user'', PStr t)], new_user_message := t\<rparr>"
  have idle1: "\<not> awaiting_confirm st1" using idle by (simp add: st1_def)
  note a = run [unfolded agent_chat_def Let_def, folded t_def, folded st1_def]
  from a n1 n2 idle1 obtain st2 where p: "preextract_slots st1 = Inr st2"
    and pt: "policy_turn e t (st2\<lparr>slots := normalize_times e (slots st2)\<rparr>) = (Inr out, st', cs)"
    by (auto simp add: t_def split: sum.splits)
  from awaiting_preextract [OF p] idle1
  have idle2: "\<not> awaiting_confirm (st2\<lparr>slots := normalize_times e (slots st2)\<rparr>)" by simp
  from policy_turn_quiet [OF pt idle2] have q: "\<not> tool_runs cs" .
  from agent_chat_ok [OF run] q have ce: "created_event st' = created_event st"
    by (auto simp add: turn_ok_def tool_runs_def)
  from policy_turn_done [OF pt] ce have "out_done out = truthy_opt (created_event st)" by simp
  with q ce show ?thesis by simp
qed

theorem done_reads_recorded_event_witness:
  "\<not> wants_check_availability (strip ''thanks'')
   \<and> \<not> is_affirmative (strip ''thanks'')
   \<and> \<not> awaiting_confirm booked_session
   \<and> truthy_opt (created_event booked_session)
   \<and> (\<exists>out st' cs. agent_chat ask_env booked_session ''thanks'' = (Inr out, st', cs)
          \<and> \<not> tool_runs cs \<and> created_event st' = created_event booked_session \<and> out_done out)"
proof -
  from booked_session_turn have n1: "\<not> wants_check_availability (strip ''thanks'')"
    and n2: "\<not> is_affirmative (strip ''thanks'')"
    and idle: "\<not> awaiting_confirm booked_session"
    and ce: "created_event booked_session
       = Some (PDict [(''ok'', PBool True),
                      (''data'', PDict [(''id'', PStr ''ev1''), (''link'', PStr ''https://cal/ev1'')])])"
    and ans: "case fst (agent_chat ask_env booked_session ''thanks'') of Inl err \<Rightarrow> False | Inr out \<Rightarrow> True"
    by blast+
  from ce have tr: "truthy_opt (created_event booked_session)"
    by (simp add: truthy_opt_def)
  from ans obtain out st' cs where run: "agent_chat ask_env booked_session ''thanks'' = (Inr out, st', cs)"
    by (cases "agent_chat ask_env booked_session ''thanks''") (auto split: sum.splits)
  from done_reads_recorded_event [OF run n1 n2 idle] tr
  have "\<not> tool_runs cs \<and> created_event st' = created_event booked_session \<and> out_done out"
    by simp
  with run n1 n2 idle tr show ?thesis by blast
qed

end
